theory Spec2Isabelle
  imports Main
begin

section \<open>The drag and drop controller of scripts/drag_and_drop.js\<close>

text \<open>
  The controller lives on a page of elements. An element is identified by a number; what
  the library reads and writes on an element is its class list, its attributes and the
  event handlers bound to it. The element query layer and the match callback are outside
  the library: a query is given by the list of elements it returns (in document order),
  and the callback \<open>checkMatch\<close> is represented by the log of the calls it receives.
\<close>

subsection \<open>Data\<close>

type_synonym elem = nat

text \<open>The frozen table \<open>ui.state\<close> of class names.\<close>

datatype cls = IS_MOVING | HAS_MOVED | IS_AVAILABLE_TARGET | IS_HOVERED | IS_SELECTED

text \<open>The attribute names the library touches; attribute values are strings.\<close>

datatype attr = Draggable | Tabindex | AriaGrabbed | AriaDropeffect | Role

datatype evtype =
  Dragstart | Dragend | Dragenter | Dragleave | Dragover | Drop | Click | Keypress | Keydown

text \<open>
  The functions bound as event handlers. \<open>DraggableSelect\<close>, \<open>TargetSelect\<close> and
  \<open>ContextKeydown\<close> are the three anonymous functions of \<open>_addKeyboardEventHandlers\<close>, in
  the order of the source.
\<close>

datatype handler =
  HandleDragStart | HandleDragEnd | HandleDragEnter | HandleDragLeave | HandleDragOver
| HandleDrop | DraggableSelect | TargetSelect | ContextKeydown

text \<open>An event as a handler sees it: \<open>evt.type\<close>, \<open>evt.currentTarget\<close>, \<open>evt.which\<close>.\<close>

datatype event = Event (etype: evtype) (currentTarget: elem) (which: nat)

datatype error = TypeError

text \<open>
  The instance together with the part of the page it works on. \<open>dragElement\<close> is
  \<open>None\<close> while the property \<open>$dragElement\<close> is undefined. A call of the callback is logged
  with its two arguments; the first one is \<open>None\<close> when the callback receives
  \<open>undefined\<close>. \<open>prevented\<close> and \<open>stopped\<close> log the events on which a handler called
  \<open>preventDefault\<close> and \<open>stopPropagation\<close>; \<open>focused\<close> is the element that last
  received \<open>focus()\<close>.
\<close>

record dnd =
  context_elem :: "elem list"
  draggables :: "elem list"
  targets :: "elem list"
  dragElement :: "elem list option"
  classes :: "elem \<Rightarrow> cls set"
  attrs :: "elem \<Rightarrow> attr \<rightharpoonup> string"
  bindings :: "elem \<Rightarrow> (evtype \<times> handler) list"
  calls :: "(elem list option \<times> elem list) list"
  focused :: "elem option"
  prevented :: "event list"
  stopped :: "event list"

subsection \<open>The element collection operations used by the library\<close>

definition addClass :: "elem list \<Rightarrow> cls \<Rightarrow> dnd \<Rightarrow> dnd" where
  "addClass els c s =
     s\<lparr>classes := (\<lambda>e. if e \<in> set els then insert c (classes s e) else classes s e)\<rparr>"

definition removeClass :: "elem list \<Rightarrow> cls \<Rightarrow> dnd \<Rightarrow> dnd" where
  "removeClass els c s =
     s\<lparr>classes := (\<lambda>e. if e \<in> set els then classes s e - {c} else classes s e)\<rparr>"

definition toggleClass :: "elem list \<Rightarrow> cls \<Rightarrow> bool \<Rightarrow> dnd \<Rightarrow> dnd" where
  "toggleClass els c b s = (if b then addClass els c s else removeClass els c s)"

text \<open>\<open>hasClass\<close> holds when some element of the collection has the class.\<close>

definition hasClass :: "elem list \<Rightarrow> cls \<Rightarrow> dnd \<Rightarrow> bool" where
  "hasClass els c s = list_ex (\<lambda>e. c \<in> classes s e) els"

definition filter_class :: "elem list \<Rightarrow> cls \<Rightarrow> dnd \<Rightarrow> elem list" where
  "filter_class els c s = filter (\<lambda>e. c \<in> classes s e) els"

text \<open>Reading an attribute takes it from the first element; an empty collection gives undefined.\<close>

definition attr_get :: "elem list \<Rightarrow> attr \<Rightarrow> dnd \<Rightarrow> string option" where
  "attr_get els a s = (case els of [] \<Rightarrow> None | e # _ \<Rightarrow> attrs s e a)"

definition attr_set :: "elem list \<Rightarrow> attr \<Rightarrow> string \<Rightarrow> dnd \<Rightarrow> dnd" where
  "attr_set els a v s =
     s\<lparr>attrs := (\<lambda>e. if e \<in> set els then (attrs s e)(a \<mapsto> v) else attrs s e)\<rparr>"

definition removeAttr :: "elem list \<Rightarrow> attr \<Rightarrow> dnd \<Rightarrow> dnd" where
  "removeAttr els a s =
     s\<lparr>attrs := (\<lambda>e. if e \<in> set els then (attrs s e)(a := None) else attrs s e)\<rparr>"

text \<open>Truth value of an attribute read: undefined and the empty string are false.\<close>

definition truthy :: "string option \<Rightarrow> bool" where
  "truthy v = (case v of None \<Rightarrow> False | Some x \<Rightarrow> x \<noteq> [])"

text \<open>\<open>on\<close> appends a handler for an event type to each element of the collection.\<close>

definition on_event :: "elem list \<Rightarrow> evtype \<Rightarrow> handler \<Rightarrow> dnd \<Rightarrow> dnd" where
  "on_event els ty h s =
     s\<lparr>bindings := (\<lambda>e. if e \<in> set els then bindings s e @ [(ty, h)] else bindings s e)\<rparr>"

text \<open>\<open>off\<close> with a type and a function removes that function from that type.\<close>

definition off_handler :: "elem list \<Rightarrow> evtype \<Rightarrow> handler \<Rightarrow> dnd \<Rightarrow> dnd" where
  "off_handler els ty h s =
     s\<lparr>bindings := (\<lambda>e. if e \<in> set els then filter (\<lambda>b. b \<noteq> (ty, h)) (bindings s e)
                         else bindings s e)\<rparr>"

text \<open>\<open>off\<close> with a type alone removes every handler of that type.\<close>

definition off_type :: "elem list \<Rightarrow> evtype \<Rightarrow> dnd \<Rightarrow> dnd" where
  "off_type els ty s =
     s\<lparr>bindings := (\<lambda>e. if e \<in> set els then filter (\<lambda>b. fst b \<noteq> ty) (bindings s e)
                         else bindings s e)\<rparr>"

definition focus :: "elem list \<Rightarrow> dnd \<Rightarrow> dnd" where
  "focus els s = (case els of [] \<Rightarrow> s | _ \<Rightarrow> s\<lparr>focused := Some (last els)\<rparr>)"

definition preventDefault :: "event \<Rightarrow> dnd \<Rightarrow> dnd" where
  "preventDefault evt s = s\<lparr>prevented := prevented s @ [evt]\<rparr>"

definition stopPropagation :: "event \<Rightarrow> dnd \<Rightarrow> dnd" where
  "stopPropagation evt s = s\<lparr>stopped := stopped s @ [evt]\<rparr>"

definition checkMatch :: "elem list option \<Rightarrow> elem list \<Rightarrow> dnd \<Rightarrow> dnd" where
  "checkMatch d t s = s\<lparr>calls := calls s @ [(d, t)]\<rparr>"

subsection \<open>Handlers of the drag gesture\<close>

definition handleDragStart :: "event \<Rightarrow> dnd \<Rightarrow> dnd" where
  "handleDragStart evt s =
     (let s1 = s\<lparr>dragElement := Some [currentTarget evt]\<rparr>;
          s2 = addClass [currentTarget evt] IS_MOVING s1;
          s3 = addClass (targets s2) IS_AVAILABLE_TARGET s2;
          s4 = attr_set (targets s3) AriaDropeffect ''move'' s3
      in attr_set [currentTarget evt] AriaGrabbed ''true'' s4)"

text \<open>
  The writes of the drag handlers to \<open>evt.originalEvent.dataTransfer\<close> change the event
  object only and have no counterpart here.

  \<open>_handleDragEnd\<close> reads \<open>self.$dragElement\<close> in its first statement: while the property
  is undefined that statement throws, before anything is changed.
\<close>

definition handleDragEnd :: "event \<Rightarrow> dnd \<Rightarrow> error + dnd" where
  "handleDragEnd evt s =
     (case dragElement s of
        None \<Rightarrow> Inl TypeError
      | Some d \<Rightarrow>
          (let s1 = removeClass d IS_MOVING s;
               s2 = removeClass (targets s1) IS_AVAILABLE_TARGET s1
           in Inr (attr_set d AriaGrabbed ''false'' s2)))"

definition handleDragEnter :: "event \<Rightarrow> dnd \<Rightarrow> dnd" where
  "handleDragEnter evt s =
     addClass [currentTarget evt] IS_HOVERED (stopPropagation evt s)"

definition handleDragLeave :: "event \<Rightarrow> dnd \<Rightarrow> dnd" where
  "handleDragLeave evt s =
     removeClass [currentTarget evt] IS_HOVERED (stopPropagation evt s)"

definition handleDragOver :: "event \<Rightarrow> dnd \<Rightarrow> dnd" where
  "handleDragOver evt s =
     (let s1 = preventDefault evt s;
          s2 = addClass [currentTarget evt] IS_HOVERED s1
      in addClass [currentTarget evt] IS_HOVERED s2)"

definition handleDrop :: "event \<Rightarrow> dnd \<Rightarrow> dnd" where
  "handleDrop evt s =
     (let theDraggable = dragElement s;
          theTarget = [currentTarget evt];
          s1 = stopPropagation evt s;
          s2 = preventDefault evt s1;
          s3 = removeClass theTarget IS_HOVERED s2
      in checkMatch theDraggable theTarget s3)"

subsection \<open>Selection by click or key\<close>

definition selectedDraggable :: "dnd \<Rightarrow> elem list" where
  "selectedDraggable s = filter_class (draggables s) IS_SELECTED s"

definition selectedTarget :: "dnd \<Rightarrow> elem list" where
  "selectedTarget s = filter_class (targets s) IS_SELECTED s"

definition keyboardSelect :: "elem list \<Rightarrow> dnd \<Rightarrow> dnd" where
  "keyboardSelect el s =
     (let newState = \<not> hasClass el IS_SELECTED s;
          s1 = (if truthy (attr_get el Draggable s)
                then removeClass (draggables s) IS_SELECTED s
                else removeClass (targets s) IS_SELECTED s);
          s2 = toggleClass el IS_SELECTED newState s1;
          theDraggable = selectedDraggable s2;
          theTarget = selectedTarget s2
      in if theDraggable \<noteq> [] \<and> theTarget \<noteq> []
         then checkMatch (Some theDraggable) theTarget s2
         else s2)"

definition ENTER_KEY :: nat where "ENTER_KEY = 13"
definition SPACE_BAR :: nat where "SPACE_BAR = 32"
definition ESCAPE :: nat where "ESCAPE = 27"

text \<open>The two handlers bound to \<open>click keypress\<close>; their bodies are the same.\<close>

definition draggableSelect :: "event \<Rightarrow> dnd \<Rightarrow> dnd" where
  "draggableSelect evt s =
     (if etype evt = Click \<or> which evt = ENTER_KEY \<or> which evt = SPACE_BAR
      then preventDefault evt (keyboardSelect [currentTarget evt] s)
      else s)"

definition targetSelect :: "event \<Rightarrow> dnd \<Rightarrow> dnd" where
  "targetSelect evt s =
     (if etype evt = Click \<or> which evt = ENTER_KEY \<or> which evt = SPACE_BAR
      then preventDefault evt (keyboardSelect [currentTarget evt] s)
      else s)"

definition contextKeydown :: "event \<Rightarrow> dnd \<Rightarrow> dnd" where
  "contextKeydown evt s =
     (if which evt = ESCAPE
      then (let selectedElement = selectedDraggable s;
                s1 = keyboardSelect selectedElement s;
                s2 = focus selectedElement s1
            in preventDefault evt s2)
      else s)"

subsection \<open>Binding and unbinding\<close>

definition addDragEventHandlers :: "dnd \<Rightarrow> dnd" where
  "addDragEventHandlers s =
     (let s1 = on_event (draggables s) Dragstart HandleDragStart s;
          s2 = on_event (draggables s1) Dragend HandleDragEnd s1;
          s3 = on_event (targets s2) Dragenter HandleDragEnter s2;
          s4 = on_event (targets s3) Dragleave HandleDragLeave s3;
          s5 = on_event (targets s4) Dragover HandleDragOver s4
      in on_event (targets s5) Drop HandleDrop s5)"

definition removeDragEventHandlers :: "elem list \<Rightarrow> elem list \<Rightarrow> dnd \<Rightarrow> dnd" where
  "removeDragEventHandlers ds ts s =
     (let s1 = off_handler ds Dragstart HandleDragStart s;
          s2 = off_handler ds Dragend HandleDragEnd s1;
          s3 = off_handler ts Dragenter HandleDragEnter s2;
          s4 = off_handler ts Dragleave HandleDragLeave s3;
          s5 = off_handler ts Dragover HandleDragOver s4
      in off_handler ts Drop HandleDrop s5)"

definition addKeyboardEventHandlers :: "dnd \<Rightarrow> dnd" where
  "addKeyboardEventHandlers s =
     (let s1 = on_event (draggables s) Click DraggableSelect s;
          s2 = on_event (draggables s1) Keypress DraggableSelect s1;
          s3 = on_event (targets s2) Click TargetSelect s2;
          s4 = on_event (targets s3) Keypress TargetSelect s3
      in on_event (context_elem s4) Keydown ContextKeydown s4)"

definition removeKeyboardEventHandlers :: "elem list \<Rightarrow> elem list \<Rightarrow> dnd \<Rightarrow> dnd" where
  "removeKeyboardEventHandlers ds ts s = off_type ts Click (off_type ds Click s)"

subsection \<open>The public operations\<close>

definition init :: "dnd \<Rightarrow> dnd" where
  "init s =
     (let s1 = attr_set (draggables s) Tabindex ''0'' s;
          s2 = attr_set (targets s1) Tabindex ''0'' s1;
          s3 = attr_set (draggables s2) Draggable ''true'' s2;
          s4 = attr_set (draggables s3) AriaGrabbed ''false'' s3;
          s5 = attr_set (targets s4) AriaDropeffect ''move'' s4;
          s6 = attr_set (context_elem s5) Role ''application'' s5;
          s7 = addDragEventHandlers s6
      in addKeyboardEventHandlers s7)"

text \<open>
  The constructor. \<open>ctx\<close>, \<open>ds\<close> and \<open>ts\<close> are the results of the three element
  queries; \<open>cl\<close> and \<open>at\<close> are the classes and attributes of the page before the
  instance exists. Only the first element of \<open>ctx\<close> is kept.
\<close>

definition DragAndDrop ::
  "elem list \<Rightarrow> elem list \<Rightarrow> elem list \<Rightarrow> (elem \<Rightarrow> cls set) \<Rightarrow> (elem \<Rightarrow> attr \<rightharpoonup> string) \<Rightarrow> dnd"
where
  "DragAndDrop ctx ds ts cl at =
     init \<lparr>context_elem = take 1 ctx, draggables = ds, targets = ts, dragElement = None,
           classes = cl, attrs = at, bindings = (\<lambda>e. []), calls = [], focused = None,
           prevented = [], stopped = []\<rparr>"

definition cleanup :: "dnd \<Rightarrow> dnd" where
  "cleanup s =
     (let s1 = removeAttr (draggables s) Draggable s;
          s2 = removeAttr (draggables s1) Tabindex s1;
          s3 = removeAttr (targets s2) Tabindex s2;
          s4 = removeDragEventHandlers (draggables s3) (targets s3) s3
      in removeKeyboardEventHandlers (draggables s4) (targets s4) s4)"

text \<open>
  The arguments of \<open>disableMatching\<close> are element collections or absent (\<open>None\<close>). A
  collection is a true value in the test of the source even when it is empty.
\<close>

definition disableMatching :: "elem list option \<Rightarrow> elem list option \<Rightarrow> dnd \<Rightarrow> dnd" where
  "disableMatching draggable target s =
     (case (draggable, target) of
        (Some d, Some t) \<Rightarrow>
          (let s1 = removeAttr d Draggable s;
               s2 = removeAttr d AriaGrabbed s1;
               s3 = removeAttr d Tabindex s2;
               s4 = removeAttr t AriaDropeffect s3;
               s5 = removeDragEventHandlers d t s4
           in removeKeyboardEventHandlers d t s5)
      | _ \<Rightarrow> s)"

subsection \<open>Delivering events\<close>

text \<open>Running one bound function on an event.\<close>

fun run_handler :: "handler \<Rightarrow> event \<Rightarrow> dnd \<Rightarrow> error + dnd" where
  "run_handler HandleDragStart evt s = Inr (handleDragStart evt s)"
| "run_handler HandleDragEnd evt s = handleDragEnd evt s"
| "run_handler HandleDragEnter evt s = Inr (handleDragEnter evt s)"
| "run_handler HandleDragLeave evt s = Inr (handleDragLeave evt s)"
| "run_handler HandleDragOver evt s = Inr (handleDragOver evt s)"
| "run_handler HandleDrop evt s = Inr (handleDrop evt s)"
| "run_handler DraggableSelect evt s = Inr (draggableSelect evt s)"
| "run_handler TargetSelect evt s = Inr (targetSelect evt s)"
| "run_handler ContextKeydown evt s = Inr (contextKeydown evt s)"

text \<open>
  The functions bound to an element for a type run in the order they were bound. One
  that throws ends the delivery; the changes made before it stay.
\<close>

fun run_handlers :: "handler list \<Rightarrow> event \<Rightarrow> dnd \<Rightarrow> error option \<times> dnd" where
  "run_handlers [] evt s = (None, s)"
| "run_handlers (h # hs) evt s =
     (case run_handler h evt s of
        Inl e \<Rightarrow> (Some e, s)
      | Inr s' \<Rightarrow> run_handlers hs evt s')"

definition handlers_for :: "dnd \<Rightarrow> elem \<Rightarrow> evtype \<Rightarrow> handler list" where
  "handlers_for s e ty = map snd (filter (\<lambda>b. fst b = ty) (bindings s e))"

definition dispatch :: "event \<Rightarrow> dnd \<Rightarrow> error option \<times> dnd" where
  "dispatch evt s = run_handlers (handlers_for s (currentTarget evt) (etype evt)) evt s"

text \<open>The page after an event; an error thrown by a handler goes to the host.\<close>

definition step :: "dnd \<Rightarrow> event \<Rightarrow> dnd" where
  "step s evt = snd (dispatch evt s)"

definition run :: "dnd \<Rightarrow> event list \<Rightarrow> dnd" where
  "run s evts = foldl step s evts"

subsection \<open>Notions used in the statements and proofs\<close>

text \<open>
  The page after the marker changes of \<open>keyboardSelect\<close> and before its test for a
  selected pair: the states \<open>s1\<close> and \<open>s2\<close> of the definition taken together.
\<close>

definition select_marks :: "elem list \<Rightarrow> dnd \<Rightarrow> dnd" where
  "select_marks el s =
     toggleClass el IS_SELECTED (\<not> hasClass el IS_SELECTED s)
       (if truthy (attr_get el Draggable s)
        then removeClass (draggables s) IS_SELECTED s
        else removeClass (targets s) IS_SELECTED s)"

text \<open>
  The condition on the selected markers: the two collections have no repeated and no
  common element, the draggables and only they carry a true \<open>draggable\<close> attribute, and
  at most one draggable and at most one target are selected.
\<close>

definition selection_ok :: "dnd \<Rightarrow> bool" where
  "selection_ok s \<longleftrightarrow>
     distinct (draggables s) \<and> distinct (targets s)
     \<and> set (draggables s) \<inter> set (targets s) = {}
     \<and> (\<forall>d\<in>set (draggables s). truthy (attrs s d Draggable))
     \<and> (\<forall>t\<in>set (targets s). \<not> truthy (attrs s t Draggable))
     \<and> length (selectedDraggable s) \<le> 1 \<and> length (selectedTarget s) \<le> 1"

section \<open>Lemmas about the operations\<close>

subsection \<open>What each collection operation changes\<close>

lemma addClass_fields [simp]:
  "classes (addClass els c s) e = (if e \<in> set els then insert c (classes s e) else classes s e)"
  "context_elem (addClass els c s) = context_elem s"
  "draggables (addClass els c s) = draggables s"
  "targets (addClass els c s) = targets s"
  "dragElement (addClass els c s) = dragElement s"
  "attrs (addClass els c s) = attrs s"
  "bindings (addClass els c s) = bindings s"
  "calls (addClass els c s) = calls s"
  "focused (addClass els c s) = focused s"
  "prevented (addClass els c s) = prevented s"
  "stopped (addClass els c s) = stopped s"
  by (simp_all add: addClass_def)

lemma removeClass_fields [simp]:
  "classes (removeClass els c s) e = (if e \<in> set els then classes s e - {c} else classes s e)"
  "context_elem (removeClass els c s) = context_elem s"
  "draggables (removeClass els c s) = draggables s"
  "targets (removeClass els c s) = targets s"
  "dragElement (removeClass els c s) = dragElement s"
  "attrs (removeClass els c s) = attrs s"
  "bindings (removeClass els c s) = bindings s"
  "calls (removeClass els c s) = calls s"
  "focused (removeClass els c s) = focused s"
  "prevented (removeClass els c s) = prevented s"
  "stopped (removeClass els c s) = stopped s"
  by (simp_all add: removeClass_def)

lemma toggleClass_fields [simp]:
  "classes (toggleClass els c b s) e =
     (if e \<in> set els then (if b then insert c (classes s e) else classes s e - {c})
      else classes s e)"
  "context_elem (toggleClass els c b s) = context_elem s"
  "draggables (toggleClass els c b s) = draggables s"
  "targets (toggleClass els c b s) = targets s"
  "dragElement (toggleClass els c b s) = dragElement s"
  "attrs (toggleClass els c b s) = attrs s"
  "bindings (toggleClass els c b s) = bindings s"
  "calls (toggleClass els c b s) = calls s"
  "focused (toggleClass els c b s) = focused s"
  "prevented (toggleClass els c b s) = prevented s"
  "stopped (toggleClass els c b s) = stopped s"
  by (simp_all add: toggleClass_def)

lemma attr_set_fields [simp]:
  "attrs (attr_set els a v s) e = (if e \<in> set els then (attrs s e)(a \<mapsto> v) else attrs s e)"
  "context_elem (attr_set els a v s) = context_elem s"
  "draggables (attr_set els a v s) = draggables s"
  "targets (attr_set els a v s) = targets s"
  "dragElement (attr_set els a v s) = dragElement s"
  "classes (attr_set els a v s) = classes s"
  "bindings (attr_set els a v s) = bindings s"
  "calls (attr_set els a v s) = calls s"
  "focused (attr_set els a v s) = focused s"
  "prevented (attr_set els a v s) = prevented s"
  "stopped (attr_set els a v s) = stopped s"
  by (simp_all add: attr_set_def)

lemma removeAttr_fields [simp]:
  "attrs (removeAttr els a s) e = (if e \<in> set els then (attrs s e)(a := None) else attrs s e)"
  "context_elem (removeAttr els a s) = context_elem s"
  "draggables (removeAttr els a s) = draggables s"
  "targets (removeAttr els a s) = targets s"
  "dragElement (removeAttr els a s) = dragElement s"
  "classes (removeAttr els a s) = classes s"
  "bindings (removeAttr els a s) = bindings s"
  "calls (removeAttr els a s) = calls s"
  "focused (removeAttr els a s) = focused s"
  "prevented (removeAttr els a s) = prevented s"
  "stopped (removeAttr els a s) = stopped s"
  by (simp_all add: removeAttr_def)

lemma on_event_fields [simp]:
  "bindings (on_event els ty h s) e =
     (if e \<in> set els then bindings s e @ [(ty, h)] else bindings s e)"
  "context_elem (on_event els ty h s) = context_elem s"
  "draggables (on_event els ty h s) = draggables s"
  "targets (on_event els ty h s) = targets s"
  "dragElement (on_event els ty h s) = dragElement s"
  "classes (on_event els ty h s) = classes s"
  "attrs (on_event els ty h s) = attrs s"
  "calls (on_event els ty h s) = calls s"
  "focused (on_event els ty h s) = focused s"
  "prevented (on_event els ty h s) = prevented s"
  "stopped (on_event els ty h s) = stopped s"
  by (simp_all add: on_event_def)

lemma off_handler_fields [simp]:
  "bindings (off_handler els ty h s) e =
     (if e \<in> set els then filter (\<lambda>b. b \<noteq> (ty, h)) (bindings s e) else bindings s e)"
  "context_elem (off_handler els ty h s) = context_elem s"
  "draggables (off_handler els ty h s) = draggables s"
  "targets (off_handler els ty h s) = targets s"
  "dragElement (off_handler els ty h s) = dragElement s"
  "classes (off_handler els ty h s) = classes s"
  "attrs (off_handler els ty h s) = attrs s"
  "calls (off_handler els ty h s) = calls s"
  "focused (off_handler els ty h s) = focused s"
  "prevented (off_handler els ty h s) = prevented s"
  "stopped (off_handler els ty h s) = stopped s"
  by (simp_all add: off_handler_def)

lemma off_type_fields [simp]:
  "bindings (off_type els ty s) e =
     (if e \<in> set els then filter (\<lambda>b. fst b \<noteq> ty) (bindings s e) else bindings s e)"
  "context_elem (off_type els ty s) = context_elem s"
  "draggables (off_type els ty s) = draggables s"
  "targets (off_type els ty s) = targets s"
  "dragElement (off_type els ty s) = dragElement s"
  "classes (off_type els ty s) = classes s"
  "attrs (off_type els ty s) = attrs s"
  "calls (off_type els ty s) = calls s"
  "focused (off_type els ty s) = focused s"
  "prevented (off_type els ty s) = prevented s"
  "stopped (off_type els ty s) = stopped s"
  by (simp_all add: off_type_def)

lemma focus_fields [simp]:
  "focused (focus els s) = (if els = [] then focused s else Some (last els))"
  "context_elem (focus els s) = context_elem s"
  "draggables (focus els s) = draggables s"
  "targets (focus els s) = targets s"
  "dragElement (focus els s) = dragElement s"
  "classes (focus els s) = classes s"
  "attrs (focus els s) = attrs s"
  "bindings (focus els s) = bindings s"
  "calls (focus els s) = calls s"
  "prevented (focus els s) = prevented s"
  "stopped (focus els s) = stopped s"
  by (simp_all add: focus_def split: list.split)

lemma preventDefault_fields [simp]:
  "prevented (preventDefault evt s) = prevented s @ [evt]"
  "context_elem (preventDefault evt s) = context_elem s"
  "draggables (preventDefault evt s) = draggables s"
  "targets (preventDefault evt s) = targets s"
  "dragElement (preventDefault evt s) = dragElement s"
  "classes (preventDefault evt s) = classes s"
  "attrs (preventDefault evt s) = attrs s"
  "bindings (preventDefault evt s) = bindings s"
  "calls (preventDefault evt s) = calls s"
  "focused (preventDefault evt s) = focused s"
  "stopped (preventDefault evt s) = stopped s"
  by (simp_all add: preventDefault_def)

lemma stopPropagation_fields [simp]:
  "stopped (stopPropagation evt s) = stopped s @ [evt]"
  "context_elem (stopPropagation evt s) = context_elem s"
  "draggables (stopPropagation evt s) = draggables s"
  "targets (stopPropagation evt s) = targets s"
  "dragElement (stopPropagation evt s) = dragElement s"
  "classes (stopPropagation evt s) = classes s"
  "attrs (stopPropagation evt s) = attrs s"
  "bindings (stopPropagation evt s) = bindings s"
  "calls (stopPropagation evt s) = calls s"
  "focused (stopPropagation evt s) = focused s"
  "prevented (stopPropagation evt s) = prevented s"
  by (simp_all add: stopPropagation_def)

lemma checkMatch_fields [simp]:
  "calls (checkMatch d t s) = calls s @ [(d, t)]"
  "context_elem (checkMatch d t s) = context_elem s"
  "draggables (checkMatch d t s) = draggables s"
  "targets (checkMatch d t s) = targets s"
  "dragElement (checkMatch d t s) = dragElement s"
  "classes (checkMatch d t s) = classes s"
  "attrs (checkMatch d t s) = attrs s"
  "bindings (checkMatch d t s) = bindings s"
  "focused (checkMatch d t s) = focused s"
  "prevented (checkMatch d t s) = prevented s"
  "stopped (checkMatch d t s) = stopped s"
  by (simp_all add: checkMatch_def)

lemma handleDragStart_eq:
  "handleDragStart evt s =
     attr_set [currentTarget evt] AriaGrabbed ''true''
       (attr_set (targets s) AriaDropeffect ''move''
         (addClass (targets s) IS_AVAILABLE_TARGET
           (addClass [currentTarget evt] IS_MOVING (s\<lparr>dragElement := Some [currentTarget evt]\<rparr>))))"
  by (simp add: handleDragStart_def Let_def)

lemma handleDragEnd_eq:
  "handleDragEnd evt s =
     (case dragElement s of
        None \<Rightarrow> Inl TypeError
      | Some d \<Rightarrow> Inr (attr_set d AriaGrabbed ''false''
                        (removeClass (targets s) IS_AVAILABLE_TARGET (removeClass d IS_MOVING s))))"
  by (simp add: handleDragEnd_def Let_def split: option.split)

lemma handleDragOver_eq:
  "handleDragOver evt s =
     addClass [currentTarget evt] IS_HOVERED
       (addClass [currentTarget evt] IS_HOVERED (preventDefault evt s))"
  by (simp add: handleDragOver_def Let_def)

lemma handleDrop_eq:
  "handleDrop evt s =
     checkMatch (dragElement s) [currentTarget evt]
       (removeClass [currentTarget evt] IS_HOVERED (preventDefault evt (stopPropagation evt s)))"
  by (simp add: handleDrop_def Let_def)

subsection \<open>The selection toggle\<close>

lemma keyboardSelect_eq:
  "keyboardSelect el s =
     (if selectedDraggable (select_marks el s) \<noteq> [] \<and> selectedTarget (select_marks el s) \<noteq> []
      then checkMatch (Some (selectedDraggable (select_marks el s)))
             (selectedTarget (select_marks el s)) (select_marks el s)
      else select_marks el s)"
  unfolding keyboardSelect_def select_marks_def Let_def ..

lemma select_marks_fields [simp]:
  "context_elem (select_marks el s) = context_elem s"
  "draggables (select_marks el s) = draggables s"
  "targets (select_marks el s) = targets s"
  "dragElement (select_marks el s) = dragElement s"
  "attrs (select_marks el s) = attrs s"
  "bindings (select_marks el s) = bindings s"
  "calls (select_marks el s) = calls s"
  "focused (select_marks el s) = focused s"
  "prevented (select_marks el s) = prevented s"
  "stopped (select_marks el s) = stopped s"
  by (simp_all add: select_marks_def)

lemma select_marks_classes:
  "classes (select_marks el s) e =
     (let c = (if truthy (attr_get el Draggable s)
               then (if e \<in> set (draggables s) then classes s e - {IS_SELECTED} else classes s e)
               else (if e \<in> set (targets s) then classes s e - {IS_SELECTED} else classes s e))
      in if e \<in> set el
         then (if hasClass el IS_SELECTED s then c - {IS_SELECTED} else insert IS_SELECTED c)
         else c)"
  by (simp add: select_marks_def Let_def)

lemma keyboardSelect_fields [simp]:
  "context_elem (keyboardSelect el s) = context_elem s"
  "draggables (keyboardSelect el s) = draggables s"
  "targets (keyboardSelect el s) = targets s"
  "dragElement (keyboardSelect el s) = dragElement s"
  "attrs (keyboardSelect el s) = attrs s"
  "bindings (keyboardSelect el s) = bindings s"
  "focused (keyboardSelect el s) = focused s"
  "prevented (keyboardSelect el s) = prevented s"
  "stopped (keyboardSelect el s) = stopped s"
  "classes (keyboardSelect el s) = classes (select_marks el s)"
  by (simp_all add: keyboardSelect_eq)

lemma selected_keyboardSelect [simp]:
  "selectedDraggable (keyboardSelect el s) = selectedDraggable (select_marks el s)"
  "selectedTarget (keyboardSelect el s) = selectedTarget (select_marks el s)"
  by (simp_all add: selectedDraggable_def selectedTarget_def filter_class_def)

lemma keyboardSelect_calls:
  "calls (keyboardSelect el s) =
     calls s @
     (if selectedDraggable (keyboardSelect el s) \<noteq> [] \<and> selectedTarget (keyboardSelect el s) \<noteq> []
      then [(Some (selectedDraggable (keyboardSelect el s)), selectedTarget (keyboardSelect el s))]
      else [])"
  unfolding selected_keyboardSelect by (simp add: keyboardSelect_eq)

subsection \<open>What an event never changes\<close>

lemma run_handler_frame:
  assumes "run_handler h evt s = Inr s'"
  shows "context_elem s' = context_elem s \<and> draggables s' = draggables s
         \<and> targets s' = targets s \<and> bindings s' = bindings s"
  using assms
  by (cases h)
     (auto simp: handleDragStart_eq handleDragEnd_eq handleDragEnter_def handleDragLeave_def
        handleDragOver_eq handleDrop_eq draggableSelect_def targetSelect_def contextKeydown_def
        Let_def split: option.splits if_splits)

lemma run_handlers_frame:
  "context_elem (snd (run_handlers hs evt s)) = context_elem s
   \<and> draggables (snd (run_handlers hs evt s)) = draggables s
   \<and> targets (snd (run_handlers hs evt s)) = targets s
   \<and> bindings (snd (run_handlers hs evt s)) = bindings s"
proof (induction hs arbitrary: s)
  case Nil
  show ?case by simp
next
  case (Cons h hs)
  show ?case
  proof (cases "run_handler h evt s")
    case (Inl e)
    then show ?thesis by simp
  next
    case (Inr s')
    with Cons [of s'] run_handler_frame [OF Inr] show ?thesis by simp
  qed
qed

lemma step_frame [simp]:
  "context_elem (step s evt) = context_elem s"
  "draggables (step s evt) = draggables s"
  "targets (step s evt) = targets s"
  "bindings (step s evt) = bindings s"
  by (simp_all add: step_def dispatch_def run_handlers_frame)

lemma run_frame [simp]:
  "context_elem (run s evts) = context_elem s"
  "draggables (run s evts) = draggables s"
  "targets (run s evts) = targets s"
  "bindings (run s evts) = bindings s"
  by (induction evts arbitrary: s) (simp_all add: run_def)

lemma handlers_for_step [simp]: "handlers_for (step s evt) = handlers_for s"
  by (simp add: handlers_for_def fun_eq_iff)

lemma handlers_for_run [simp]: "handlers_for (run s evts) = handlers_for s"
  by (simp add: handlers_for_def fun_eq_iff)

lemma run_Nil [simp]: "run s [] = s"
  by (simp add: run_def)

lemma run_Cons [simp]: "run s (evt # evts) = run (step s evt) evts"
  by (simp add: run_def)

lemma run_append [simp]: "run s (xs @ ys) = run (run s xs) ys"
  by (simp add: run_def)

subsection \<open>The handlers bound by the constructor\<close>

lemma init_fields [simp]:
  "context_elem (init s) = context_elem s"
  "draggables (init s) = draggables s"
  "targets (init s) = targets s"
  "dragElement (init s) = dragElement s"
  "classes (init s) = classes s"
  "calls (init s) = calls s"
  "focused (init s) = focused s"
  "prevented (init s) = prevented s"
  "stopped (init s) = stopped s"
  by (simp_all add: init_def addDragEventHandlers_def addKeyboardEventHandlers_def Let_def)

lemma init_bindings:
  "bindings (init s) e =
     bindings s e
     @ (if e \<in> set (draggables s)
        then [(Dragstart, HandleDragStart), (Dragend, HandleDragEnd)] else [])
     @ (if e \<in> set (targets s)
        then [(Dragenter, HandleDragEnter), (Dragleave, HandleDragLeave),
              (Dragover, HandleDragOver), (Drop, HandleDrop)] else [])
     @ (if e \<in> set (draggables s)
        then [(Click, DraggableSelect), (Keypress, DraggableSelect)] else [])
     @ (if e \<in> set (targets s)
        then [(Click, TargetSelect), (Keypress, TargetSelect)] else [])
     @ (if e \<in> set (context_elem s) then [(Keydown, ContextKeydown)] else [])"
  by (simp add: init_def addDragEventHandlers_def addKeyboardEventHandlers_def Let_def)

lemma init_attrs:
  "attrs (init s) e =
     (let a1 = (if e \<in> set (draggables s) then (attrs s e)(Tabindex \<mapsto> ''0'') else attrs s e);
          a2 = (if e \<in> set (targets s) then a1(Tabindex \<mapsto> ''0'') else a1);
          a3 = (if e \<in> set (draggables s)
                then a2(Draggable \<mapsto> ''true'', AriaGrabbed \<mapsto> ''false'') else a2);
          a4 = (if e \<in> set (targets s) then a3(AriaDropeffect \<mapsto> ''move'') else a3)
      in if e \<in> set (context_elem s) then a4(Role \<mapsto> ''application'') else a4)"
  by (simp add: init_def addDragEventHandlers_def addKeyboardEventHandlers_def Let_def)

lemma DragAndDrop_fields [simp]:
  "context_elem (DragAndDrop ctx ds ts cl at) = take 1 ctx"
  "draggables (DragAndDrop ctx ds ts cl at) = ds"
  "targets (DragAndDrop ctx ds ts cl at) = ts"
  "dragElement (DragAndDrop ctx ds ts cl at) = None"
  "classes (DragAndDrop ctx ds ts cl at) = cl"
  "calls (DragAndDrop ctx ds ts cl at) = []"
  "focused (DragAndDrop ctx ds ts cl at) = None"
  "prevented (DragAndDrop ctx ds ts cl at) = []"
  "stopped (DragAndDrop ctx ds ts cl at) = []"
  by (simp_all add: DragAndDrop_def)

lemma DragAndDrop_handlers:
  "handlers_for (DragAndDrop ctx ds ts cl at) e Dragstart =
     (if e \<in> set ds then [HandleDragStart] else [])"
  "handlers_for (DragAndDrop ctx ds ts cl at) e Dragend =
     (if e \<in> set ds then [HandleDragEnd] else [])"
  "handlers_for (DragAndDrop ctx ds ts cl at) e Dragenter =
     (if e \<in> set ts then [HandleDragEnter] else [])"
  "handlers_for (DragAndDrop ctx ds ts cl at) e Dragleave =
     (if e \<in> set ts then [HandleDragLeave] else [])"
  "handlers_for (DragAndDrop ctx ds ts cl at) e Dragover =
     (if e \<in> set ts then [HandleDragOver] else [])"
  "handlers_for (DragAndDrop ctx ds ts cl at) e Drop =
     (if e \<in> set ts then [HandleDrop] else [])"
  "handlers_for (DragAndDrop ctx ds ts cl at) e Click =
     (if e \<in> set ds then [DraggableSelect] else []) @ (if e \<in> set ts then [TargetSelect] else [])"
  "handlers_for (DragAndDrop ctx ds ts cl at) e Keypress =
     (if e \<in> set ds then [DraggableSelect] else []) @ (if e \<in> set ts then [TargetSelect] else [])"
  "handlers_for (DragAndDrop ctx ds ts cl at) e Keydown =
     (if e \<in> set (take 1 ctx) then [ContextKeydown] else [])"
  by (simp_all add: handlers_for_def DragAndDrop_def init_bindings)

subsection \<open>Delivering an event to one handler or none\<close>

lemma step_none:
  "handlers_for s (currentTarget evt) (etype evt) = [] \<Longrightarrow> step s evt = s"
  by (simp add: step_def dispatch_def)

lemma step_single:
  "handlers_for s (currentTarget evt) (etype evt) = [h] \<Longrightarrow>
   step s evt = (case run_handler h evt s of Inl e \<Rightarrow> s | Inr s' \<Rightarrow> s')"
  by (simp add: step_def dispatch_def split: sum.split)

lemma handleDragStart_fields [simp]:
  "dragElement (handleDragStart evt s) = Some [currentTarget evt]"
  "context_elem (handleDragStart evt s) = context_elem s"
  "draggables (handleDragStart evt s) = draggables s"
  "targets (handleDragStart evt s) = targets s"
  "bindings (handleDragStart evt s) = bindings s"
  "calls (handleDragStart evt s) = calls s"
  "focused (handleDragStart evt s) = focused s"
  "prevented (handleDragStart evt s) = prevented s"
  "stopped (handleDragStart evt s) = stopped s"
  "classes (handleDragStart evt s) e =
     (if e \<in> set (targets s)
      then insert IS_AVAILABLE_TARGET
             (if e = currentTarget evt then insert IS_MOVING (classes s e) else classes s e)
      else if e = currentTarget evt then insert IS_MOVING (classes s e) else classes s e)"
  by (simp_all add: handleDragStart_eq)

lemma handleDrop_fields [simp]:
  "calls (handleDrop evt s) = calls s @ [(dragElement s, [currentTarget evt])]"
  "dragElement (handleDrop evt s) = dragElement s"
  "context_elem (handleDrop evt s) = context_elem s"
  "draggables (handleDrop evt s) = draggables s"
  "targets (handleDrop evt s) = targets s"
  "bindings (handleDrop evt s) = bindings s"
  "attrs (handleDrop evt s) = attrs s"
  "focused (handleDrop evt s) = focused s"
  "prevented (handleDrop evt s) = prevented s @ [evt]"
  "stopped (handleDrop evt s) = stopped s @ [evt]"
  "classes (handleDrop evt s) e =
     (if e = currentTarget evt then classes s e - {IS_HOVERED} else classes s e)"
  by (simp_all add: handleDrop_eq)

lemma handleDragOver_fields [simp]:
  "prevented (handleDragOver evt s) = prevented s @ [evt]"
  "calls (handleDragOver evt s) = calls s"
  "dragElement (handleDragOver evt s) = dragElement s"
  "context_elem (handleDragOver evt s) = context_elem s"
  "draggables (handleDragOver evt s) = draggables s"
  "targets (handleDragOver evt s) = targets s"
  "bindings (handleDragOver evt s) = bindings s"
  "attrs (handleDragOver evt s) = attrs s"
  "focused (handleDragOver evt s) = focused s"
  "stopped (handleDragOver evt s) = stopped s"
  "classes (handleDragOver evt s) e =
     (if e = currentTarget evt then insert IS_HOVERED (classes s e) else classes s e)"
  by (simp_all add: handleDragOver_eq)

lemma handleDragEnter_fields [simp]:
  "prevented (handleDragEnter evt s) = prevented s"
  "calls (handleDragEnter evt s) = calls s"
  "dragElement (handleDragEnter evt s) = dragElement s"
  "context_elem (handleDragEnter evt s) = context_elem s"
  "draggables (handleDragEnter evt s) = draggables s"
  "targets (handleDragEnter evt s) = targets s"
  "bindings (handleDragEnter evt s) = bindings s"
  "attrs (handleDragEnter evt s) = attrs s"
  "focused (handleDragEnter evt s) = focused s"
  "stopped (handleDragEnter evt s) = stopped s @ [evt]"
  "classes (handleDragEnter evt s) e =
     (if e = currentTarget evt then insert IS_HOVERED (classes s e) else classes s e)"
  by (simp_all add: handleDragEnter_def)

lemma handleDragLeave_fields [simp]:
  "prevented (handleDragLeave evt s) = prevented s"
  "calls (handleDragLeave evt s) = calls s"
  "dragElement (handleDragLeave evt s) = dragElement s"
  "context_elem (handleDragLeave evt s) = context_elem s"
  "draggables (handleDragLeave evt s) = draggables s"
  "targets (handleDragLeave evt s) = targets s"
  "bindings (handleDragLeave evt s) = bindings s"
  "attrs (handleDragLeave evt s) = attrs s"
  "focused (handleDragLeave evt s) = focused s"
  "stopped (handleDragLeave evt s) = stopped s @ [evt]"
  "classes (handleDragLeave evt s) e =
     (if e = currentTarget evt then classes s e - {IS_HOVERED} else classes s e)"
  by (simp_all add: handleDragLeave_def)

lemma draggableSelect_fields [simp]:
  "dragElement (draggableSelect evt s) = dragElement s"
  "context_elem (draggableSelect evt s) = context_elem s"
  "draggables (draggableSelect evt s) = draggables s"
  "targets (draggableSelect evt s) = targets s"
  "bindings (draggableSelect evt s) = bindings s"
  "attrs (draggableSelect evt s) = attrs s"
  "focused (draggableSelect evt s) = focused s"
  "stopped (draggableSelect evt s) = stopped s"
  by (simp_all add: draggableSelect_def)

lemma targetSelect_fields [simp]:
  "dragElement (targetSelect evt s) = dragElement s"
  "context_elem (targetSelect evt s) = context_elem s"
  "draggables (targetSelect evt s) = draggables s"
  "targets (targetSelect evt s) = targets s"
  "bindings (targetSelect evt s) = bindings s"
  "attrs (targetSelect evt s) = attrs s"
  "focused (targetSelect evt s) = focused s"
  "stopped (targetSelect evt s) = stopped s"
  by (simp_all add: targetSelect_def)

lemma contextKeydown_fields [simp]:
  "dragElement (contextKeydown evt s) = dragElement s"
  "context_elem (contextKeydown evt s) = context_elem s"
  "draggables (contextKeydown evt s) = draggables s"
  "targets (contextKeydown evt s) = targets s"
  "bindings (contextKeydown evt s) = bindings s"
  "attrs (contextKeydown evt s) = attrs s"
  "stopped (contextKeydown evt s) = stopped s"
  by (simp_all add: contextKeydown_def Let_def)

subsection \<open>The reference to the dragged element\<close>

lemma run_handler_dragElement:
  "run_handler h evt s = Inr s' \<Longrightarrow> h \<noteq> HandleDragStart \<Longrightarrow> dragElement s' = dragElement s"
  by (cases h) (auto simp: handleDragEnd_eq split: option.splits)

lemma run_handlers_dragElement:
  "HandleDragStart \<notin> set hs \<Longrightarrow> dragElement (snd (run_handlers hs evt s)) = dragElement s"
proof (induction hs arbitrary: s)
  case Nil
  show ?case by simp
next
  case (Cons h hs)
  show ?case
  proof (cases "run_handler h evt s")
    case (Inl e)
    then show ?thesis by simp
  next
    case (Inr s')
    from Cons.prems have "h \<noteq> HandleDragStart" "HandleDragStart \<notin> set hs" by auto
    with Cons.IH [of s'] run_handler_dragElement [OF Inr] Inr show ?thesis by simp
  qed
qed

lemma DragAndDrop_no_dragstart:
  "ty \<noteq> Dragstart \<Longrightarrow> HandleDragStart \<notin> set (handlers_for (DragAndDrop ctx ds ts cl at) e ty)"
  by (cases ty) (simp_all add: DragAndDrop_handlers)

lemma step_dragElement_other:
  assumes "etype evt \<noteq> Dragstart"
  shows "dragElement (step (run (DragAndDrop ctx ds ts cl at) evts) evt)
         = dragElement (run (DragAndDrop ctx ds ts cl at) evts)"
  using DragAndDrop_no_dragstart [OF assms]
  by (simp add: step_def dispatch_def run_handlers_dragElement)

lemma step_dragstart:
  assumes "d \<in> set ds"
  shows "step (run (DragAndDrop ctx ds ts cl at) evts) (Event Dragstart d w)
         = handleDragStart (Event Dragstart d w) (run (DragAndDrop ctx ds ts cl at) evts)"
  using assms by (simp add: step_single [where h = HandleDragStart] DragAndDrop_handlers)

lemma step_drop:
  assumes "t \<in> set ts"
  shows "step (run (DragAndDrop ctx ds ts cl at) evts) (Event Drop t w)
         = handleDrop (Event Drop t w) (run (DragAndDrop ctx ds ts cl at) evts)"
  using assms by (simp add: step_single [where h = HandleDrop] DragAndDrop_handlers)

lemma step_dragover:
  assumes "t \<in> set ts"
  shows "step (run (DragAndDrop ctx ds ts cl at) evts) (Event Dragover t w)
         = handleDragOver (Event Dragover t w) (run (DragAndDrop ctx ds ts cl at) evts)"
  using assms by (simp add: step_single [where h = HandleDragOver] DragAndDrop_handlers)

lemma run_dragElement_none:
  assumes "\<forall>evt\<in>set evts. etype evt \<noteq> Dragstart"
  shows "dragElement (run (DragAndDrop ctx ds ts cl at) evts) = None"
  using assms
proof (induction evts rule: rev_induct)
  case Nil
  show ?case by simp
next
  case (snoc evt evts)
  then show ?case by (simp add: step_dragElement_other)
qed

lemma DragAndDrop_bindings:
  "bindings (DragAndDrop ctx ds ts cl at) e =
     (if e \<in> set ds then [(Dragstart, HandleDragStart), (Dragend, HandleDragEnd)] else [])
     @ (if e \<in> set ts
        then [(Dragenter, HandleDragEnter), (Dragleave, HandleDragLeave),
              (Dragover, HandleDragOver), (Drop, HandleDrop)] else [])
     @ (if e \<in> set ds then [(Click, DraggableSelect), (Keypress, DraggableSelect)] else [])
     @ (if e \<in> set ts then [(Click, TargetSelect), (Keypress, TargetSelect)] else [])
     @ (if e \<in> set (take 1 ctx) then [(Keydown, ContextKeydown)] else [])"
  by (simp add: DragAndDrop_def init_bindings)

lemma DragAndDrop_attrs:
  "attrs (DragAndDrop ctx ds ts cl at) e =
     (let a1 = (if e \<in> set ds then (at e)(Tabindex \<mapsto> ''0'') else at e);
          a2 = (if e \<in> set ts then a1(Tabindex \<mapsto> ''0'') else a1);
          a3 = (if e \<in> set ds
                then a2(Draggable \<mapsto> ''true'', AriaGrabbed \<mapsto> ''false'') else a2);
          a4 = (if e \<in> set ts then a3(AriaDropeffect \<mapsto> ''move'') else a3)
      in if e \<in> set (take 1 ctx) then a4(Role \<mapsto> ''application'') else a4)"
  by (simp add: DragAndDrop_def init_attrs)

text \<open>Rules that evaluate the delivery of events to a given instance.\<close>

lemmas deliver =
  step_def dispatch_def handlers_for_def DragAndDrop_bindings DragAndDrop_attrs handleDragEnd_eq
  draggableSelect_def targetSelect_def contextKeydown_def keyboardSelect_calls
  selectedDraggable_def selectedTarget_def filter_class_def select_marks_classes
  hasClass_def attr_get_def truthy_def ENTER_KEY_def SPACE_BAR_def ESCAPE_def Let_def

section \<open>Properties of the controller\<close>

subsection \<open>Drop, drag-over and the dragged element\<close>

text \<open>
  Claim C10: a drop delivered on a target before any drag-start has fired on the instance
  is not guarded: the callback is called with an undefined draggable and that target.
\<close>

theorem drop_before_dragstart:
  assumes "t \<in> set ts" and "\<forall>evt\<in>set evts. etype evt \<noteq> Dragstart"
  shows "calls (step (run (DragAndDrop ctx ds ts cl at) evts) (Event Drop t w))
         = calls (run (DragAndDrop ctx ds ts cl at) evts) @ [(None, [t])]"
  using assms by (simp add: step_drop run_dragElement_none)

theorem drop_before_dragstart_witness:
  "calls (step (run (DragAndDrop [0] [1, 2] [3, 4] (\<lambda>e. {}) (\<lambda>e. Map.empty))
                 [Event Dragover 3 0]) (Event Drop 3 0))
   = [(None, [3])]"
proof -
  have a: "(3::nat) \<in> set [3, 4]" by simp
  have b: "\<forall>evt\<in>set [Event Dragover 3 0]. etype evt \<noteq> Dragstart" by simp
  have c: "calls (run (DragAndDrop [0] [1, 2] [3, 4] (\<lambda>e. {}) (\<lambda>e. Map.empty))
                   [Event Dragover 3 0]) = []"
    by (simp add: deliver)
  show ?thesis
    using drop_before_dragstart [OF a b, of "[0]" "[1, 2]" "\<lambda>e. {}" "\<lambda>e. Map.empty" 0] c
    by simp
qed

text \<open>
  Claim C7: a drop on target \<open>t\<close> right after the drag-start on draggable \<open>d\<close> calls the
  callback exactly once, with \<open>d\<close> and \<open>t\<close>; and every drag-over on a target prevents the
  default of that event, in whatever state it arrives.
\<close>

theorem drop_after_dragstart:
  assumes "d \<in> set ds" and "t \<in> set ts"
  shows "calls (run (run (DragAndDrop ctx ds ts cl at) evts)
                  [Event Dragstart d w, Event Drop t w'])
         = calls (run (DragAndDrop ctx ds ts cl at) evts) @ [(Some [d], [t])]
       \<and> prevented (step (run (DragAndDrop ctx ds ts cl at) evts) (Event Dragover t w))
         = prevented (run (DragAndDrop ctx ds ts cl at) evts) @ [Event Dragover t w]"
proof -
  let ?s = "run (DragAndDrop ctx ds ts cl at) evts"
  have "step ?s (Event Dragstart d w) = run (DragAndDrop ctx ds ts cl at) (evts @ [Event Dragstart d w])"
    by simp
  then have "step (step ?s (Event Dragstart d w)) (Event Drop t w')
             = handleDrop (Event Drop t w') (step ?s (Event Dragstart d w))"
    using step_drop [OF assms(2), of ctx ds cl at "evts @ [Event Dragstart d w]" w'] by simp
  then have "calls (run ?s [Event Dragstart d w, Event Drop t w'])
             = calls ?s @ [(Some [d], [t])]"
    using assms(1) by (simp add: step_dragstart)
  moreover have "prevented (step ?s (Event Dragover t w)) = prevented ?s @ [Event Dragover t w]"
    using assms(2) by (simp add: step_dragover)
  ultimately show ?thesis by simp
qed

theorem drop_after_dragstart_witness:
  "calls (run (DragAndDrop [0] [1, 2] [3, 4] (\<lambda>e. {}) (\<lambda>e. Map.empty))
            [Event Dragstart 1 0, Event Drop 3 0]) = [(Some [1], [3])]
   \<and> prevented (run (DragAndDrop [0] [1, 2] [3, 4] (\<lambda>e. {}) (\<lambda>e. Map.empty))
                  [Event Dragover 3 0, Event Dragover 3 0])
     = [Event Dragover 3 0, Event Dragover 3 0]"
proof -
  have a: "(1::nat) \<in> set [1, 2]" and b: "(3::nat) \<in> set [3, 4]" by simp_all
  from drop_after_dragstart [OF a b, of "[0]" "\<lambda>e. {}" "\<lambda>e. Map.empty" "[]" 0 0]
       drop_after_dragstart [OF a b, of "[0]" "\<lambda>e. {}" "\<lambda>e. Map.empty" "[Event Dragover 3 0]" 0 0]
  show ?thesis by (simp add: deliver)
qed

text \<open>
  Claim C5, as the code has it: the reference to the dragged element is undefined when
  the instance is built, a drag-start on a draggable sets it to that draggable, and no
  other event changes it. A drag-end leaves it in place, so after a gesture it still
  names the draggable of that gesture.
\<close>

theorem drag_reference_kept:
  assumes "d \<in> set ds" and "etype evt \<noteq> Dragstart"
  shows "dragElement (DragAndDrop ctx ds ts cl at) = None
       \<and> dragElement (step (run (DragAndDrop ctx ds ts cl at) evts) (Event Dragstart d w))
         = Some [d]
       \<and> dragElement (step (run (DragAndDrop ctx ds ts cl at) evts) evt)
         = dragElement (run (DragAndDrop ctx ds ts cl at) evts)"
  using assms by (simp add: step_dragstart step_dragElement_other)

theorem drag_reference_kept_witness:
  "dragElement (run (DragAndDrop [0] [1, 2] [3, 4] (\<lambda>e. {}) (\<lambda>e. Map.empty))
                 [Event Dragstart 1 0, Event Drop 3 0, Event Dragend 1 0]) = Some [1]"
proof -
  have a: "(1::nat) \<in> set [1, 2]" by simp
  have b: "etype (Event Drop 3 0) \<noteq> Dragstart" and c: "etype (Event Dragend 1 0) \<noteq> Dragstart"
    by simp_all
  from drag_reference_kept [OF a b, of "[0]" "[3, 4]" "\<lambda>e. {}" "\<lambda>e. Map.empty" "[Event Dragstart 1 0]" 0]
       drag_reference_kept [OF a c, of "[0]" "[3, 4]" "\<lambda>e. {}" "\<lambda>e. Map.empty"
         "[Event Dragstart 1 0, Event Drop 3 0]" 0]
       drag_reference_kept [OF a c, of "[0]" "[3, 4]" "\<lambda>e. {}" "\<lambda>e. Map.empty" "[]" 0]
  show ?thesis by (simp add: deliver)
qed

text \<open>
  Against C5 as stated: after drag-start and drag-end on draggable 1 the reference is
  still set.
\<close>

theorem drag_reference_counterexample:
  "dragElement (run (DragAndDrop [0] [1, 2] [3, 4] (\<lambda>e. {}) (\<lambda>e. Map.empty))
                 [Event Dragstart 1 0, Event Dragend 1 0]) \<noteq> None"
  by (simp add: deliver)

subsection \<open>An event on an instance that has all its handlers\<close>

lemma step_DragAndDrop:
  "step (run (DragAndDrop ctx ds ts cl at) evts) evt =
     (let s = run (DragAndDrop ctx ds ts cl at) evts; e = currentTarget evt in
      case etype evt of
        Dragstart \<Rightarrow> if e \<in> set ds then handleDragStart evt s else s
      | Dragend \<Rightarrow>
          if e \<in> set ds
          then (case handleDragEnd evt s of Inl err \<Rightarrow> s | Inr s' \<Rightarrow> s')
          else s
      | Dragenter \<Rightarrow> if e \<in> set ts then handleDragEnter evt s else s
      | Dragleave \<Rightarrow> if e \<in> set ts then handleDragLeave evt s else s
      | Dragover \<Rightarrow> if e \<in> set ts then handleDragOver evt s else s
      | Drop \<Rightarrow> if e \<in> set ts then handleDrop evt s else s
      | Click \<Rightarrow>
          (if e \<in> set ts then targetSelect evt else id)
            ((if e \<in> set ds then draggableSelect evt else id) s)
      | Keypress \<Rightarrow>
          (if e \<in> set ts then targetSelect evt else id)
            ((if e \<in> set ds then draggableSelect evt else id) s)
      | Keydown \<Rightarrow> if e \<in> set (take 1 ctx) then contextKeydown evt s else s)"
  by (cases "etype evt")
     (simp_all add: step_def dispatch_def DragAndDrop_handlers Let_def split: sum.split)

subsection \<open>Markers during a drag gesture\<close>

lemma hover_event_markers:
  assumes "etype evt \<in> {Dragenter, Dragleave, Dragover, Drop}" and "c \<noteq> IS_HOVERED"
  shows "(c \<in> classes (step (run (DragAndDrop ctx ds ts cl at) evts) evt) e)
         = (c \<in> classes (run (DragAndDrop ctx ds ts cl at) evts) e)"
  using assms by (cases "etype evt") (auto simp: step_DragAndDrop Let_def split: if_splits)

lemma hover_events_markers:
  assumes "\<forall>evt\<in>set mids. etype evt \<in> {Dragenter, Dragleave, Dragover, Drop}"
    and "c \<noteq> IS_HOVERED"
  shows "(c \<in> classes (run (DragAndDrop ctx ds ts cl at) (evts @ mids)) e)
         = (c \<in> classes (run (DragAndDrop ctx ds ts cl at) evts) e)"
  using assms(1)
proof (induction mids rule: rev_induct)
  case Nil
  show ?case by simp
next
  case (snoc evt mids)
  have "(c \<in> classes (step (run (DragAndDrop ctx ds ts cl at) (evts @ mids)) evt) e)
        = (c \<in> classes (run (DragAndDrop ctx ds ts cl at) (evts @ mids)) e)"
    using snoc.prems assms(2) by (intro hover_event_markers) auto
  with snoc show ?case by simp
qed

lemma hover_events_dragElement:
  assumes "\<forall>evt\<in>set mids. etype evt \<in> {Dragenter, Dragleave, Dragover, Drop}"
  shows "dragElement (run (DragAndDrop ctx ds ts cl at) (evts @ mids))
         = dragElement (run (DragAndDrop ctx ds ts cl at) evts)"
  using assms
proof (induction mids rule: rev_induct)
  case Nil
  show ?case by simp
next
  case (snoc evt mids)
  from snoc.prems have "etype evt \<noteq> Dragstart" by auto
  then have "dragElement (step (run (DragAndDrop ctx ds ts cl at) (evts @ mids)) evt)
             = dragElement (run (DragAndDrop ctx ds ts cl at) (evts @ mids))"
    by (rule step_dragElement_other)
  with snoc show ?case by simp
qed

lemma dragend_classes:
  assumes "d \<in> set ds" and "dragElement (run (DragAndDrop ctx ds ts cl at) evts) = Some [d]"
  shows "classes (step (run (DragAndDrop ctx ds ts cl at) evts) (Event Dragend d w)) e
         = (let c = classes (run (DragAndDrop ctx ds ts cl at) evts) e;
                c1 = (if e = d then c - {IS_MOVING} else c)
            in if e \<in> set ts then c1 - {IS_AVAILABLE_TARGET} else c1)"
  using assms by (simp add: step_DragAndDrop handleDragEnd_eq Let_def)



subsection \<open>The cancel key\<close>

lemma step_escape:
  assumes "c \<in> set (take 1 ctx)"
  shows "step (run (DragAndDrop ctx ds ts cl at) evts) (Event Keydown c ESCAPE)
         = preventDefault (Event Keydown c ESCAPE)
             (focus (selectedDraggable (run (DragAndDrop ctx ds ts cl at) evts))
                (keyboardSelect (selectedDraggable (run (DragAndDrop ctx ds ts cl at) evts))
                   (run (DragAndDrop ctx ds ts cl at) evts)))"
  using assms by (simp add: step_DragAndDrop contextKeydown_def Let_def)

lemma selected_member:
  "selectedDraggable s = d # ds' \<Longrightarrow> IS_SELECTED \<in> classes s d"
  "selectedTarget s = t # ts' \<Longrightarrow> IS_SELECTED \<in> classes s t"
  by (auto simp: selectedDraggable_def selectedTarget_def filter_class_def filter_eq_Cons_iff)

lemma none_selected:
  "selectedDraggable s = [] \<Longrightarrow> e \<in> set (draggables s) \<Longrightarrow> IS_SELECTED \<notin> classes s e"
  "selectedTarget s = [] \<Longrightarrow> e \<in> set (targets s) \<Longrightarrow> IS_SELECTED \<notin> classes s e"
  by (simp_all add: selectedDraggable_def selectedTarget_def filter_class_def filter_empty_conv)

lemma select_marks_empty:
  "classes (select_marks [] s) e
   = (if e \<in> set (targets s) then classes s e - {IS_SELECTED} else classes s e)"
  by (simp add: select_marks_classes attr_get_def truthy_def)

text \<open>
  Claim C8: the cancel key pressed while one draggable is selected removes the selected
  marker from that draggable and gives it the focus; pressed while no draggable and no
  target is selected it changes no class of any element and calls the callback not at all.
\<close>

theorem cancel_key:
  assumes "c \<in> set (take 1 ctx)"
  shows "(selectedDraggable (run (DragAndDrop ctx ds ts cl at) evts) = [d] \<longrightarrow>
            IS_SELECTED \<notin> classes (step (run (DragAndDrop ctx ds ts cl at) evts)
                                     (Event Keydown c ESCAPE)) d
          \<and> focused (step (run (DragAndDrop ctx ds ts cl at) evts) (Event Keydown c ESCAPE))
            = Some d)
       \<and> (selectedDraggable (run (DragAndDrop ctx ds ts cl at) evts) = []
          \<and> selectedTarget (run (DragAndDrop ctx ds ts cl at) evts) = [] \<longrightarrow>
            classes (step (run (DragAndDrop ctx ds ts cl at) evts) (Event Keydown c ESCAPE))
            = classes (run (DragAndDrop ctx ds ts cl at) evts)
          \<and> calls (step (run (DragAndDrop ctx ds ts cl at) evts) (Event Keydown c ESCAPE))
            = calls (run (DragAndDrop ctx ds ts cl at) evts))"
proof -
  let ?s = "run (DragAndDrop ctx ds ts cl at) evts"
  let ?s' = "step ?s (Event Keydown c ESCAPE)"
  have one: "IS_SELECTED \<notin> classes ?s' d \<and> focused ?s' = Some d"
    if sel: "selectedDraggable ?s = [d]"
  proof -
    have "IS_SELECTED \<in> classes ?s d" using sel by (rule selected_member)
    then have "hasClass [d] IS_SELECTED ?s" by (simp add: hasClass_def)
    then have "IS_SELECTED \<notin> classes (select_marks [d] ?s) d"
      by (simp add: select_marks_classes Let_def)
    then show ?thesis by (simp add: step_escape [OF assms] sel)
  qed
  have none: "classes ?s' = classes ?s \<and> calls ?s' = calls ?s"
    if nd: "selectedDraggable ?s = []" and nt: "selectedTarget ?s = []"
  proof -
    have same: "classes (select_marks [] ?s) = classes ?s"
    proof
      fix e
      show "classes (select_marks [] ?s) e = classes ?s e"
        using none_selected(2) [OF nt, of e] by (simp add: select_marks_empty)
    qed
    have "selectedDraggable (select_marks [] ?s) = selectedDraggable ?s"
      by (simp add: selectedDraggable_def filter_class_def same)
    then have "calls (keyboardSelect [] ?s) = calls ?s"
      by (simp add: keyboardSelect_calls nd)
    then show ?thesis by (simp add: step_escape [OF assms] nd same)
  qed
  from one none show ?thesis by blast
qed

theorem cancel_key_witness:
  "IS_SELECTED \<in> classes (run (DragAndDrop [0] [1, 2] [3, 4] (\<lambda>e. {}) (\<lambda>e. Map.empty))
                             [Event Click 1 1]) 1
   \<and> IS_SELECTED \<notin> classes (run (DragAndDrop [0] [1, 2] [3, 4] (\<lambda>e. {}) (\<lambda>e. Map.empty))
                             [Event Click 1 1, Event Keydown 0 27]) 1
   \<and> focused (run (DragAndDrop [0] [1, 2] [3, 4] (\<lambda>e. {}) (\<lambda>e. Map.empty))
                [Event Click 1 1, Event Keydown 0 27]) = Some 1
   \<and> calls (run (DragAndDrop [0] [1, 2] [3, 4] (\<lambda>e. {}) (\<lambda>e. Map.empty))
              [Event Keydown 0 27]) = []"
proof -
  let ?D = "DragAndDrop [0] [1, 2] [3, 4] (\<lambda>e. {}) (\<lambda>e. Map.empty)"
  have a: "(0::nat) \<in> set (take 1 [0])" by simp
  have b: "selectedDraggable (run ?D [Event Click 1 1]) = [1]" by (simp add: deliver)
  have c: "selectedDraggable (run ?D []) = [] \<and> selectedTarget (run ?D []) = []"
    by (simp add: deliver)
  have d: "IS_SELECTED \<in> classes (run ?D [Event Click 1 1]) 1" by (simp add: deliver)
  from cancel_key [OF a, of "[1, 2]" "[3, 4]" "\<lambda>e. {}" "\<lambda>e. Map.empty" "[Event Click 1 1]" 1]
       cancel_key [OF a, of "[1, 2]" "[3, 4]" "\<lambda>e. {}" "\<lambda>e. Map.empty" "[]" 1] b c d
  show ?thesis by (simp add: ESCAPE_def)
qed

text \<open>
  Claim C9: the cancel key pressed while no draggable is selected runs the toggle on an
  empty collection, which takes the branch for targets: a target that was selected loses
  its selected marker, and no target is selected afterwards.
\<close>

theorem escape_clears_target:
  assumes "c \<in> set (take 1 ctx)" and "t \<in> set ts"
    and "selectedDraggable (run (DragAndDrop ctx ds ts cl at) evts) = []"
  shows "IS_SELECTED \<notin> classes (step (run (DragAndDrop ctx ds ts cl at) evts)
                                  (Event Keydown c ESCAPE)) t
       \<and> selectedTarget (step (run (DragAndDrop ctx ds ts cl at) evts)
                           (Event Keydown c ESCAPE)) = []"
proof -
  let ?s = "run (DragAndDrop ctx ds ts cl at) evts"
  have "\<forall>e\<in>set ts. IS_SELECTED \<notin> classes (select_marks [] ?s) e"
    by (simp add: select_marks_empty)
  then show ?thesis
    using assms(2)
    by (simp add: step_escape [OF assms(1)] assms(3) selectedTarget_def filter_class_def
          filter_empty_conv)
qed

theorem escape_clears_target_witness:
  "IS_SELECTED \<in> classes (run (DragAndDrop [0] [1, 2] [3, 4] (\<lambda>e. {}) (\<lambda>e. Map.empty))
                             [Event Click 3 1]) 3
   \<and> IS_SELECTED \<notin> classes (run (DragAndDrop [0] [1, 2] [3, 4] (\<lambda>e. {}) (\<lambda>e. Map.empty))
                             [Event Click 3 1, Event Keydown 0 27]) 3"
proof -
  let ?D = "DragAndDrop [0] [1, 2] [3, 4] (\<lambda>e. {}) (\<lambda>e. Map.empty)"
  have a: "(0::nat) \<in> set (take 1 [0])" and b: "(3::nat) \<in> set [3, 4]" by simp_all
  have c: "selectedDraggable (run ?D [Event Click 3 1]) = []" by (simp add: deliver)
  have d: "IS_SELECTED \<in> classes (run ?D [Event Click 3 1]) 3" by (simp add: deliver)
  from escape_clears_target [OF a b c] d
  show ?thesis by (simp add: ESCAPE_def)
qed

subsection \<open>A toggle in a state with at most one selected element in each set\<close>

lemma filter_single:
  "distinct xs \<Longrightarrow> x \<in> set xs \<Longrightarrow> filter (\<lambda>e. e = x) xs = [x]"
  by (induction xs) (auto simp: filter_empty_conv)

lemma toggle_draggable:
  assumes "selection_ok s" and "d \<in> set (draggables s)"
  shows "selectedDraggable (select_marks [d] s)
         = (if IS_SELECTED \<in> classes s d then [] else [d])"
    and "selectedTarget (select_marks [d] s) = selectedTarget s"
proof -
  from assms have tr: "truthy (attr_get [d] Draggable s)"
    by (simp add: selection_ok_def attr_get_def)
  from assms have dist: "distinct (draggables s)" and nt: "d \<notin> set (targets s)"
    by (auto simp: selection_ok_def)
  have "filter (\<lambda>e. IS_SELECTED \<in> classes (select_marks [d] s) e) (draggables s)
        = filter (\<lambda>e. e = d \<and> IS_SELECTED \<notin> classes s d) (draggables s)"
    by (rule filter_cong) (auto simp: select_marks_classes tr hasClass_def Let_def)
  also have "\<dots> = (if IS_SELECTED \<in> classes s d then [] else [d])"
    using filter_single [OF dist assms(2)] by simp
  finally show "selectedDraggable (select_marks [d] s)
                = (if IS_SELECTED \<in> classes s d then [] else [d])"
    by (simp add: selectedDraggable_def filter_class_def)
  have "filter (\<lambda>e. IS_SELECTED \<in> classes (select_marks [d] s) e) (targets s)
        = filter (\<lambda>e. IS_SELECTED \<in> classes s e) (targets s)"
    using assms nt
    by (intro filter_cong) (auto simp: select_marks_classes tr Let_def selection_ok_def)
  then show "selectedTarget (select_marks [d] s) = selectedTarget s"
    by (simp add: selectedTarget_def filter_class_def)
qed

lemma toggle_target:
  assumes "selection_ok s" and "t \<in> set (targets s)"
  shows "selectedTarget (select_marks [t] s)
         = (if IS_SELECTED \<in> classes s t then [] else [t])"
    and "selectedDraggable (select_marks [t] s) = selectedDraggable s"
proof -
  from assms have tr: "\<not> truthy (attr_get [t] Draggable s)"
    by (simp add: selection_ok_def attr_get_def)
  from assms have dist: "distinct (targets s)" and nd: "t \<notin> set (draggables s)"
    by (auto simp: selection_ok_def)
  have "filter (\<lambda>e. IS_SELECTED \<in> classes (select_marks [t] s) e) (targets s)
        = filter (\<lambda>e. e = t \<and> IS_SELECTED \<notin> classes s t) (targets s)"
    by (rule filter_cong) (auto simp: select_marks_classes tr hasClass_def Let_def)
  also have "\<dots> = (if IS_SELECTED \<in> classes s t then [] else [t])"
    using filter_single [OF dist assms(2)] by simp
  finally show "selectedTarget (select_marks [t] s)
                = (if IS_SELECTED \<in> classes s t then [] else [t])"
    by (simp add: selectedTarget_def filter_class_def)
  have "filter (\<lambda>e. IS_SELECTED \<in> classes (select_marks [t] s) e) (draggables s)
        = filter (\<lambda>e. IS_SELECTED \<in> classes s e) (draggables s)"
    using assms nd
    by (intro filter_cong) (auto simp: select_marks_classes tr Let_def selection_ok_def)
  then show "selectedDraggable (select_marks [t] s) = selectedDraggable s"
    by (simp add: selectedDraggable_def filter_class_def)
qed

lemma selection_ok_toggle:
  assumes "selection_ok s" and "el \<in> set (draggables s) \<union> set (targets s)"
  shows "selection_ok (keyboardSelect [el] s)"
proof -
  have "length (selectedDraggable (select_marks [el] s)) \<le> 1
        \<and> length (selectedTarget (select_marks [el] s)) \<le> 1"
    using assms toggle_draggable [of s el] toggle_target [of s el]
    by (auto simp: selection_ok_def)
  with assms(1) show ?thesis by (simp add: selection_ok_def)
qed

lemma selected_iff:
  "selection_ok s \<Longrightarrow> d \<in> set (draggables s) \<Longrightarrow>
     (IS_SELECTED \<in> classes s d) = (selectedDraggable s = [d])"
  "selection_ok s \<Longrightarrow> t \<in> set (targets s) \<Longrightarrow>
     (IS_SELECTED \<in> classes s t) = (selectedTarget s = [t])"
proof -
  have *: "(c \<in> cl x) = (filter (\<lambda>e. c \<in> cl e) xs = [x])"
    if "x \<in> set xs" and "length (filter (\<lambda>e. c \<in> cl e) xs) \<le> 1"
    for c :: cls and cl :: "elem \<Rightarrow> cls set" and x xs
  proof
    assume "c \<in> cl x"
    with that(1) have "x \<in> set (filter (\<lambda>e. c \<in> cl e) xs)" by simp
    with that(2) show "filter (\<lambda>e. c \<in> cl e) xs = [x]"
      by (cases "filter (\<lambda>e. c \<in> cl e) xs") auto
  next
    assume "filter (\<lambda>e. c \<in> cl e) xs = [x]"
    then have "x \<in> set (filter (\<lambda>e. c \<in> cl e) xs)" by simp
    then show "c \<in> cl x" by simp
  qed
  show "selection_ok s \<Longrightarrow> d \<in> set (draggables s) \<Longrightarrow>
     (IS_SELECTED \<in> classes s d) = (selectedDraggable s = [d])"
    using * [of d "draggables s" IS_SELECTED "classes s"]
    by (simp add: selection_ok_def selectedDraggable_def filter_class_def)
  show "selection_ok s \<Longrightarrow> t \<in> set (targets s) \<Longrightarrow>
     (IS_SELECTED \<in> classes s t) = (selectedTarget s = [t])"
    using * [of t "targets s" IS_SELECTED "classes s"]
    by (simp add: selection_ok_def selectedTarget_def filter_class_def)
qed

lemma keyboardSelect_draggable:
  assumes "selection_ok s" and "d \<in> set (draggables s)"
  shows "selection_ok (keyboardSelect [d] s)"
    and "selectedTarget (keyboardSelect [d] s) = selectedTarget s"
    and "selectedDraggable (keyboardSelect [d] s) = (if selectedDraggable s = [d] then [] else [d])"
    and "calls (keyboardSelect [d] s)
         = calls s @ (if selectedDraggable s \<noteq> [d] \<and> selectedTarget s \<noteq> []
                      then [(Some [d], selectedTarget s)] else [])"
proof -
  show "selection_ok (keyboardSelect [d] s)"
    using assms by (simp add: selection_ok_toggle)
  show t: "selectedTarget (keyboardSelect [d] s) = selectedTarget s"
    using assms by (simp add: toggle_draggable)
  show d: "selectedDraggable (keyboardSelect [d] s)
           = (if selectedDraggable s = [d] then [] else [d])"
    using assms by (simp add: toggle_draggable selected_iff)
  show "calls (keyboardSelect [d] s)
        = calls s @ (if selectedDraggable s \<noteq> [d] \<and> selectedTarget s \<noteq> []
                     then [(Some [d], selectedTarget s)] else [])"
    unfolding keyboardSelect_calls [of "[d]" s] t d by simp
qed

lemma keyboardSelect_target:
  assumes "selection_ok s" and "t \<in> set (targets s)"
  shows "selection_ok (keyboardSelect [t] s)"
    and "selectedDraggable (keyboardSelect [t] s) = selectedDraggable s"
    and "selectedTarget (keyboardSelect [t] s) = (if selectedTarget s = [t] then [] else [t])"
    and "calls (keyboardSelect [t] s)
         = calls s @ (if selectedTarget s \<noteq> [t] \<and> selectedDraggable s \<noteq> []
                      then [(Some (selectedDraggable s), [t])] else [])"
proof -
  show "selection_ok (keyboardSelect [t] s)"
    using assms by (simp add: selection_ok_toggle)
  show d: "selectedDraggable (keyboardSelect [t] s) = selectedDraggable s"
    using assms by (simp add: toggle_target)
  show t: "selectedTarget (keyboardSelect [t] s)
           = (if selectedTarget s = [t] then [] else [t])"
    using assms by (simp add: toggle_target selected_iff)
  show "calls (keyboardSelect [t] s)
        = calls s @ (if selectedTarget s \<noteq> [t] \<and> selectedDraggable s \<noteq> []
                     then [(Some (selectedDraggable s), [t])] else [])"
    unfolding keyboardSelect_calls [of "[t]" s] t d by simp
qed

lemma selected_lengths:
  assumes "selection_ok s"
  shows "(length (selectedDraggable s) = 1) = (selectedDraggable s \<noteq> [])"
    and "(length (selectedTarget s) = 1) = (selectedTarget s \<noteq> [])"
  using assms by (auto simp: selection_ok_def le_Suc_eq)

text \<open>
  In a state with at most one selected element in each set, a toggle of an element of
  either set calls the callback once if afterwards exactly one draggable and exactly one
  target are selected, with that pair, and not at all otherwise. Starting with nothing
  selected, selecting a draggable and a target in either order makes exactly one call;
  selecting another element of the same set before the pair is complete replaces the
  first one, and the only call made has the replacement and not the replaced element.
\<close>

lemma toggle_in_order:
  assumes "selection_ok s" and "el \<in> set (draggables s) \<union> set (targets s)"
  shows "calls (keyboardSelect [el] s)
         = calls s @
           (if length (selectedDraggable (keyboardSelect [el] s)) = 1
               \<and> length (selectedTarget (keyboardSelect [el] s)) = 1
            then [(Some (selectedDraggable (keyboardSelect [el] s)),
                   selectedTarget (keyboardSelect [el] s))]
            else [])
       \<and> (selectedDraggable s = [] \<and> selectedTarget s = [] \<longrightarrow>
          (\<forall>d\<in>set (draggables s). \<forall>t\<in>set (targets s).
             calls (keyboardSelect [t] (keyboardSelect [d] s)) = calls s @ [(Some [d], [t])]
           \<and> calls (keyboardSelect [d] (keyboardSelect [t] s)) = calls s @ [(Some [d], [t])]
           \<and> (\<forall>d0\<in>set (draggables s). d0 \<noteq> d \<longrightarrow>
                calls (keyboardSelect [t] (keyboardSelect [d] (keyboardSelect [d0] s)))
                = calls s @ [(Some [d], [t])])
           \<and> (\<forall>t0\<in>set (targets s). t0 \<noteq> t \<longrightarrow>
                calls (keyboardSelect [d] (keyboardSelect [t] (keyboardSelect [t0] s)))
                = calls s @ [(Some [d], [t])])))"
proof (intro conjI impI ballI)
  let ?s' = "keyboardSelect [el] s"
  from assms have ok': "selection_ok ?s'" by (rule selection_ok_toggle)
  show "calls ?s' = calls s @
           (if length (selectedDraggable ?s') = 1 \<and> length (selectedTarget ?s') = 1
            then [(Some (selectedDraggable ?s'), selectedTarget ?s')] else [])"
    unfolding selected_lengths [OF ok'] by (rule keyboardSelect_calls)
next
  fix d t
  assume e: "selectedDraggable s = [] \<and> selectedTarget s = []"
    and d: "d \<in> set (draggables s)" and t: "t \<in> set (targets s)"
  note ok = assms(1)
  note D = keyboardSelect_draggable [OF ok d]
  note T = keyboardSelect_target [OF ok t]
  have t1: "t \<in> set (targets (keyboardSelect [d] s))" using t by simp
  have d1: "d \<in> set (draggables (keyboardSelect [t] s))" using d by simp
  show "calls (keyboardSelect [t] (keyboardSelect [d] s)) = calls s @ [(Some [d], [t])]"
    using e by (simp add: keyboardSelect_target [OF D(1) t1] D del: selected_keyboardSelect)
  show "calls (keyboardSelect [d] (keyboardSelect [t] s)) = calls s @ [(Some [d], [t])]"
    using e by (simp add: keyboardSelect_draggable [OF T(1) d1] T del: selected_keyboardSelect)
  {
    fix d0
    assume d0: "d0 \<in> set (draggables s)" and ne: "d0 \<noteq> d"
    note D0 = keyboardSelect_draggable [OF ok d0]
    have d2: "d \<in> set (draggables (keyboardSelect [d0] s))" using d by simp
    note D1 = keyboardSelect_draggable [OF D0(1) d2]
    have t2: "t \<in> set (targets (keyboardSelect [d] (keyboardSelect [d0] s)))" using t by simp
    show "calls (keyboardSelect [t] (keyboardSelect [d] (keyboardSelect [d0] s)))
          = calls s @ [(Some [d], [t])]"
      using e ne by (simp add: keyboardSelect_target [OF D1(1) t2] D1 D0 del: selected_keyboardSelect)
  }
  {
    fix t0
    assume t0: "t0 \<in> set (targets s)" and ne: "t0 \<noteq> t"
    note T0 = keyboardSelect_target [OF ok t0]
    have t2: "t \<in> set (targets (keyboardSelect [t0] s))" using t by simp
    note T1 = keyboardSelect_target [OF T0(1) t2]
    have d2: "d \<in> set (draggables (keyboardSelect [t] (keyboardSelect [t0] s)))" using d by simp
    show "calls (keyboardSelect [d] (keyboardSelect [t] (keyboardSelect [t0] s)))
          = calls s @ [(Some [d], [t])]"
      using e ne by (simp add: keyboardSelect_draggable [OF T1(1) d2] T1 T0 del: selected_keyboardSelect)
  }
qed

lemma toggle_in_order_example:
  "calls (keyboardSelect [1] (DragAndDrop [0] [1, 2] [3, 4] (\<lambda>e. {}) (\<lambda>e. Map.empty))) = []
   \<and> calls (keyboardSelect [3] (keyboardSelect [1]
        (DragAndDrop [0] [1, 2] [3, 4] (\<lambda>e. {}) (\<lambda>e. Map.empty)))) = [(Some [1], [3])]
   \<and> calls (keyboardSelect [1] (keyboardSelect [3]
        (DragAndDrop [0] [1, 2] [3, 4] (\<lambda>e. {}) (\<lambda>e. Map.empty)))) = [(Some [1], [3])]
   \<and> calls (keyboardSelect [3] (keyboardSelect [2] (keyboardSelect [1]
        (DragAndDrop [0] [1, 2] [3, 4] (\<lambda>e. {}) (\<lambda>e. Map.empty))))) = [(Some [2], [3])]"
proof -
  let ?D = "DragAndDrop [0] [1, 2] [3, 4] (\<lambda>e. {}) (\<lambda>e. Map.empty)"
  have sel: "selectedDraggable ?D = []" "selectedTarget ?D = []"
    by (simp_all add: selectedDraggable_def selectedTarget_def filter_class_def)
  have ok: "selection_ok ?D"
    by (simp add: selection_ok_def selectedDraggable_def selectedTarget_def filter_class_def
          DragAndDrop_attrs truthy_def)
  have el: "1 \<in> set (draggables ?D) \<union> set (targets ?D)" by simp
  have one: "calls (keyboardSelect [1] ?D) = []" by (simp add: deliver)
  from toggle_in_order [OF ok el] sel one show ?thesis by simp
qed

subsection \<open>The selection invariant along events\<close>

lemma selection_ok_cong:
  assumes "draggables s' = draggables s" and "targets s' = targets s"
    and "\<And>e. attrs s' e Draggable = attrs s e Draggable"
    and "\<And>e. (IS_SELECTED \<in> classes s' e) = (IS_SELECTED \<in> classes s e)"
  shows "selection_ok s' = selection_ok s"
  using assms by (simp add: selection_ok_def selectedDraggable_def selectedTarget_def filter_class_def)

lemma selection_ok_DragAndDrop:
  assumes "distinct ds" and "distinct ts" and "set ds \<inter> set ts = {}"
    and "\<forall>t\<in>set ts. \<not> truthy (at t Draggable)"
    and "\<forall>e\<in>set ds \<union> set ts. IS_SELECTED \<notin> cl e"
  shows "selection_ok (DragAndDrop ctx ds ts cl at)"
proof -
  have "filter (\<lambda>e. IS_SELECTED \<in> cl e) ds = []" "filter (\<lambda>e. IS_SELECTED \<in> cl e) ts = []"
    using assms(5) by (auto simp: filter_empty_conv)
  then have "selectedDraggable (DragAndDrop ctx ds ts cl at) = []"
    "selectedTarget (DragAndDrop ctx ds ts cl at) = []"
    by (simp_all add: selectedDraggable_def selectedTarget_def filter_class_def)
  moreover have "\<forall>d\<in>set ds. truthy (attrs (DragAndDrop ctx ds ts cl at) d Draggable)"
    by (simp add: DragAndDrop_attrs truthy_def Let_def)
  moreover have "\<forall>t\<in>set ts. \<not> truthy (attrs (DragAndDrop ctx ds ts cl at) t Draggable)"
    using assms(3,4) by (auto simp: DragAndDrop_attrs Let_def)
  ultimately show ?thesis using assms(1-3) by (simp add: selection_ok_def)
qed

lemma selection_ok_toggle_empty:
  assumes "selection_ok s"
  shows "selection_ok (keyboardSelect [] s)"
proof -
  have "filter (\<lambda>e. IS_SELECTED \<in> classes (select_marks [] s) e) (targets s) = []"
    by (simp add: select_marks_empty filter_empty_conv)
  moreover have "filter (\<lambda>e. IS_SELECTED \<in> classes (select_marks [] s) e) (draggables s)
                 = filter (\<lambda>e. IS_SELECTED \<in> classes s e) (draggables s)"
    using assms by (intro filter_cong) (auto simp: select_marks_empty selection_ok_def)
  ultimately show ?thesis
    using assms
    by (simp add: selection_ok_def selectedDraggable_def selectedTarget_def filter_class_def)
qed

lemma selection_ok_cancel:
  assumes "selection_ok s"
  shows "selection_ok (keyboardSelect (selectedDraggable s) s)"
proof (cases "selectedDraggable s")
  case Nil
  with assms show ?thesis by (simp add: selection_ok_toggle_empty)
next
  case (Cons d rest)
  with assms have "rest = []" by (simp add: selection_ok_def)
  moreover have "d \<in> set (selectedDraggable s)" using Cons by simp
  then have "d \<in> set (draggables s)" by (simp add: selectedDraggable_def filter_class_def)
  ultimately show ?thesis using assms Cons by (simp add: selection_ok_toggle)
qed

lemma selection_ok_handlers:
  "selection_ok (handleDragStart evt s) = selection_ok s"
  "selection_ok (handleDragEnter evt s) = selection_ok s"
  "selection_ok (handleDragLeave evt s) = selection_ok s"
  "selection_ok (handleDragOver evt s) = selection_ok s"
  "selection_ok (handleDrop evt s) = selection_ok s"
  "selection_ok (preventDefault evt s) = selection_ok s"
  "selection_ok (focus els s) = selection_ok s"
  by (rule selection_ok_cong; simp add: handleDragStart_eq)+

lemma selection_ok_dragend:
  "handleDragEnd evt s = Inr s' \<Longrightarrow> selection_ok s' = selection_ok s"
  by (rule selection_ok_cong) (auto simp: handleDragEnd_eq split: option.splits if_splits)

lemma selection_ok_step:
  assumes "selection_ok (run (DragAndDrop ctx ds ts cl at) evts)"
  shows "selection_ok (step (run (DragAndDrop ctx ds ts cl at) evts) evt)"
proof -
  let ?s = "run (DragAndDrop ctx ds ts cl at) evts"
  let ?e = "currentTarget evt"
  from assms have disj: "?e \<in> set ds \<Longrightarrow> ?e \<notin> set ts"
    by (auto simp: selection_ok_def)
  have sel: "selection_ok (draggableSelect evt ?s)" "selection_ok (targetSelect evt ?s)"
    if "?e \<in> set ds \<union> set ts"
    using that assms
    by (simp_all add: draggableSelect_def targetSelect_def selection_ok_handlers
          selection_ok_toggle)
  have esc: "selection_ok (contextKeydown evt ?s)"
    using assms
    by (simp add: contextKeydown_def Let_def selection_ok_handlers selection_ok_cancel)
  show ?thesis
  proof (cases "etype evt")
    case Dragend
    then show ?thesis
      using assms
      by (auto simp: step_DragAndDrop Let_def selection_ok_dragend split: sum.splits)
  next
    case Click
    then show ?thesis using assms sel disj by (auto simp: step_DragAndDrop Let_def)
  next
    case Keypress
    then show ?thesis using assms sel disj by (auto simp: step_DragAndDrop Let_def)
  next
    case Keydown
    then show ?thesis using assms esc by (simp add: step_DragAndDrop Let_def)
  qed (use assms in \<open>simp_all add: step_DragAndDrop Let_def selection_ok_handlers\<close>)
qed

lemma selection_ok_run:
  assumes "distinct ds" and "distinct ts" and "set ds \<inter> set ts = {}"
    and "\<forall>t\<in>set ts. \<not> truthy (at t Draggable)"
    and "\<forall>e\<in>set ds \<union> set ts. IS_SELECTED \<notin> cl e"
  shows "selection_ok (run (DragAndDrop ctx ds ts cl at) evts)"
proof (induction evts rule: rev_induct)
  case Nil
  show ?case using assms by (simp add: selection_ok_DragAndDrop)
next
  case (snoc evt evts)
  then show ?case using selection_ok_step [of ctx ds ts cl at evts evt] by simp
qed

subsection \<open>Disabling a pair\<close>

lemma disableMatching_absent [simp]:
  "disableMatching None target s = s"
  "disableMatching draggable None s = s"
  by (simp_all add: disableMatching_def split: option.split)

lemma removeHandlers_fields [simp]:
  "context_elem (removeDragEventHandlers d t s) = context_elem s"
  "draggables (removeDragEventHandlers d t s) = draggables s"
  "targets (removeDragEventHandlers d t s) = targets s"
  "dragElement (removeDragEventHandlers d t s) = dragElement s"
  "classes (removeDragEventHandlers d t s) = classes s"
  "attrs (removeDragEventHandlers d t s) = attrs s"
  "calls (removeDragEventHandlers d t s) = calls s"
  "focused (removeDragEventHandlers d t s) = focused s"
  "prevented (removeDragEventHandlers d t s) = prevented s"
  "stopped (removeDragEventHandlers d t s) = stopped s"
  "context_elem (removeKeyboardEventHandlers d t s) = context_elem s"
  "draggables (removeKeyboardEventHandlers d t s) = draggables s"
  "targets (removeKeyboardEventHandlers d t s) = targets s"
  "dragElement (removeKeyboardEventHandlers d t s) = dragElement s"
  "classes (removeKeyboardEventHandlers d t s) = classes s"
  "attrs (removeKeyboardEventHandlers d t s) = attrs s"
  "calls (removeKeyboardEventHandlers d t s) = calls s"
  "focused (removeKeyboardEventHandlers d t s) = focused s"
  "prevented (removeKeyboardEventHandlers d t s) = prevented s"
  "stopped (removeKeyboardEventHandlers d t s) = stopped s"
  by (simp_all add: removeDragEventHandlers_def removeKeyboardEventHandlers_def Let_def)

lemma removeDragEventHandlers_bindings:
  "bindings (removeDragEventHandlers d t s) e =
     filter (\<lambda>b. \<not> (e \<in> set d \<and> b \<in> {(Dragstart, HandleDragStart), (Dragend, HandleDragEnd)})
                \<and> \<not> (e \<in> set t \<and> b \<in> {(Dragenter, HandleDragEnter), (Dragleave, HandleDragLeave),
                                          (Dragover, HandleDragOver), (Drop, HandleDrop)}))
       (bindings s e)"
  by (auto simp: removeDragEventHandlers_def Let_def intro!: filter_cong)

lemma removeKeyboardEventHandlers_bindings:
  "bindings (removeKeyboardEventHandlers d t s) e =
     filter (\<lambda>b. \<not> (e \<in> set d \<union> set t \<and> fst b = Click)) (bindings s e)"
  by (auto simp: removeKeyboardEventHandlers_def intro!: filter_cong)

lemma disableMatching_fields [simp]:
  "context_elem (disableMatching draggable target s) = context_elem s"
  "draggables (disableMatching draggable target s) = draggables s"
  "targets (disableMatching draggable target s) = targets s"
  "dragElement (disableMatching draggable target s) = dragElement s"
  "classes (disableMatching draggable target s) = classes s"
  "calls (disableMatching draggable target s) = calls s"
  "focused (disableMatching draggable target s) = focused s"
  "prevented (disableMatching draggable target s) = prevented s"
  "stopped (disableMatching draggable target s) = stopped s"
  by (simp_all add: disableMatching_def Let_def split: option.split)

lemma disableMatching_attrs:
  "attrs (disableMatching (Some d) (Some t) s) e =
     (let a = (if e \<in> set d
               then (attrs s e)(Draggable := None, AriaGrabbed := None, Tabindex := None)
               else attrs s e)
      in if e \<in> set t then a(AriaDropeffect := None) else a)"
  by (simp add: disableMatching_def Let_def)

lemma disableMatching_bindings:
  "bindings (disableMatching (Some d) (Some t) s) e =
     filter (\<lambda>b. \<not> (e \<in> set d \<and> b \<in> {(Dragstart, HandleDragStart), (Dragend, HandleDragEnd)})
                \<and> \<not> (e \<in> set t \<and> b \<in> {(Dragenter, HandleDragEnter), (Dragleave, HandleDragLeave),
                                          (Dragover, HandleDragOver), (Drop, HandleDrop)})
                \<and> \<not> (e \<in> set d \<union> set t \<and> fst b = Click))
       (bindings s e)"
  by (auto simp: disableMatching_def Let_def removeDragEventHandlers_bindings
        removeKeyboardEventHandlers_bindings intro!: filter_cong)

lemma handlers_for_bindings:
  "bindings s' = bindings s \<Longrightarrow> handlers_for s' = handlers_for s"
  by (simp add: handlers_for_def fun_eq_iff)

lemma disableMatching_handlers:
  "handlers_for (disableMatching (Some d) (Some t) (run (DragAndDrop ctx ds ts cl at) evts)) e ty =
     (if e \<in> set d \<and> ty \<in> {Dragstart, Dragend, Click}
         \<or> e \<in> set t \<and> ty \<in> {Dragenter, Dragleave, Dragover, Drop, Click}
      then []
      else handlers_for (DragAndDrop ctx ds ts cl at) e ty)"
  by (cases ty)
     (auto simp: handlers_for_def disableMatching_bindings DragAndDrop_bindings)

text \<open>
  Claim C2, as the code has it: \<open>disableMatching\<close> does nothing when an argument is
  absent. With both collections given it removes the \<open>draggable\<close>, \<open>aria-grabbed\<close> and
  \<open>tabindex\<close> attributes from the draggable and \<open>aria-dropeffect\<close> from the target, whose
  \<open>tabindex\<close> stays; no handler is left on the pair for the drag events and for click;
  classes, calls and the attributes and handlers of every other element are unchanged, and
  a drag-start on another draggable followed by a drop on another target still calls the
  callback with the two.
\<close>

theorem disableMatching_pair:
  "disableMatching None target (run (DragAndDrop ctx ds ts cl at) evts)
     = run (DragAndDrop ctx ds ts cl at) evts
   \<and> disableMatching draggable None (run (DragAndDrop ctx ds ts cl at) evts)
     = run (DragAndDrop ctx ds ts cl at) evts
   \<and> (\<forall>e\<in>set d.
         attrs (disableMatching (Some d) (Some t) (run (DragAndDrop ctx ds ts cl at) evts)) e Draggable = None
       \<and> attrs (disableMatching (Some d) (Some t) (run (DragAndDrop ctx ds ts cl at) evts)) e AriaGrabbed = None
       \<and> attrs (disableMatching (Some d) (Some t) (run (DragAndDrop ctx ds ts cl at) evts)) e Tabindex = None
       \<and> (\<forall>ty\<in>{Dragstart, Dragend, Click}.
            handlers_for (disableMatching (Some d) (Some t) (run (DragAndDrop ctx ds ts cl at) evts)) e ty = []))
   \<and> (\<forall>e\<in>set t.
         attrs (disableMatching (Some d) (Some t) (run (DragAndDrop ctx ds ts cl at) evts)) e AriaDropeffect = None
       \<and> (e \<notin> set d \<longrightarrow>
            attrs (disableMatching (Some d) (Some t) (run (DragAndDrop ctx ds ts cl at) evts)) e Tabindex
            = attrs (run (DragAndDrop ctx ds ts cl at) evts) e Tabindex)
       \<and> (\<forall>ty\<in>{Dragenter, Dragleave, Dragover, Drop, Click}.
            handlers_for (disableMatching (Some d) (Some t) (run (DragAndDrop ctx ds ts cl at) evts)) e ty = []))
   \<and> (\<forall>e. e \<notin> set d \<union> set t \<longrightarrow>
         attrs (disableMatching (Some d) (Some t) (run (DragAndDrop ctx ds ts cl at) evts)) e
         = attrs (run (DragAndDrop ctx ds ts cl at) evts) e
       \<and> bindings (disableMatching (Some d) (Some t) (run (DragAndDrop ctx ds ts cl at) evts)) e
         = bindings (run (DragAndDrop ctx ds ts cl at) evts) e)
   \<and> classes (disableMatching (Some d) (Some t) (run (DragAndDrop ctx ds ts cl at) evts))
     = classes (run (DragAndDrop ctx ds ts cl at) evts)
   \<and> calls (disableMatching (Some d) (Some t) (run (DragAndDrop ctx ds ts cl at) evts))
     = calls (run (DragAndDrop ctx ds ts cl at) evts)
   \<and> (\<forall>d1\<in>set ds. \<forall>t1\<in>set ts. d1 \<notin> set d \<and> t1 \<notin> set t \<longrightarrow>
         calls (run (disableMatching (Some d) (Some t) (run (DragAndDrop ctx ds ts cl at) evts))
                  [Event Dragstart d1 w, Event Drop t1 w'])
         = calls (run (DragAndDrop ctx ds ts cl at) evts) @ [(Some [d1], [t1])])"
proof -
  let ?s = "run (DragAndDrop ctx ds ts cl at) evts"
  let ?s' = "disableMatching (Some d) (Some t) ?s"
  have pair_d: "\<forall>e\<in>set d. attrs ?s' e Draggable = None \<and> attrs ?s' e AriaGrabbed = None
      \<and> attrs ?s' e Tabindex = None
      \<and> (\<forall>ty\<in>{Dragstart, Dragend, Click}. handlers_for ?s' e ty = [])"
    by (simp add: disableMatching_attrs disableMatching_handlers Let_def)
  have pair_t: "\<forall>e\<in>set t. attrs ?s' e AriaDropeffect = None
      \<and> (e \<notin> set d \<longrightarrow> attrs ?s' e Tabindex = attrs ?s e Tabindex)
      \<and> (\<forall>ty\<in>{Dragenter, Dragleave, Dragover, Drop, Click}. handlers_for ?s' e ty = [])"
    by (simp add: disableMatching_attrs disableMatching_handlers Let_def)
  have others: "\<forall>e. e \<notin> set d \<union> set t \<longrightarrow>
      attrs ?s' e = attrs ?s e \<and> bindings ?s' e = bindings ?s e"
    by (simp add: disableMatching_attrs disableMatching_bindings Let_def)
  have still: "calls (run ?s' [Event Dragstart d1 w, Event Drop t1 w'])
               = calls ?s @ [(Some [d1], [t1])]"
    if "d1 \<in> set ds" "t1 \<in> set ts" "d1 \<notin> set d" "t1 \<notin> set t" for d1 t1
  proof -
    have h1: "handlers_for ?s' (currentTarget (Event Dragstart d1 w)) (etype (Event Dragstart d1 w))
              = [HandleDragStart]"
      using that by (simp add: disableMatching_handlers DragAndDrop_handlers)
    have s1: "step ?s' (Event Dragstart d1 w) = handleDragStart (Event Dragstart d1 w) ?s'"
      using step_single [OF h1] by simp
    have "handlers_for (handleDragStart (Event Dragstart d1 w) ?s') = handlers_for ?s'"
      by (rule handlers_for_bindings) simp
    then have h2: "handlers_for (handleDragStart (Event Dragstart d1 w) ?s')
                     (currentTarget (Event Drop t1 w')) (etype (Event Drop t1 w'))
                   = [HandleDrop]"
      using that by (simp add: disableMatching_handlers DragAndDrop_handlers)
    show ?thesis
      using step_single [OF h2] by (simp add: s1)
  qed
  from pair_d pair_t others still show ?thesis by simp
qed

theorem disableMatching_pair_witness:
  "attrs (disableMatching (Some [2]) (Some [4])
            (DragAndDrop [0] [1, 2] [3, 4] (\<lambda>e. {}) (\<lambda>e. Map.empty))) 2 Draggable = None
   \<and> handlers_for (disableMatching (Some [2]) (Some [4])
            (DragAndDrop [0] [1, 2] [3, 4] (\<lambda>e. {}) (\<lambda>e. Map.empty))) 2 Dragstart = []
   \<and> handlers_for (disableMatching (Some [2]) (Some [4])
            (DragAndDrop [0] [1, 2] [3, 4] (\<lambda>e. {}) (\<lambda>e. Map.empty))) 4 Drop = []
   \<and> bindings (disableMatching (Some [2]) (Some [4])
            (DragAndDrop [0] [1, 2] [3, 4] (\<lambda>e. {}) (\<lambda>e. Map.empty))) 1
     = [(Dragstart, HandleDragStart), (Dragend, HandleDragEnd),
        (Click, DraggableSelect), (Keypress, DraggableSelect)]
   \<and> calls (run (disableMatching (Some [2]) (Some [4])
                   (DragAndDrop [0] [1, 2] [3, 4] (\<lambda>e. {}) (\<lambda>e. Map.empty)))
              [Event Dragstart 1 0, Event Drop 3 0]) = [(Some [1], [3])]"
  using disableMatching_pair [of None "[0]" "[1, 2]" "[3, 4]" "\<lambda>e. {}" "\<lambda>e. Map.empty" "[]"
          None "[2]" "[4]" 0 0]
  by (simp add: DragAndDrop_bindings)

text \<open>
  Against C2 as stated: after the pair (2, 4) is disabled the target 4 still has its
  \<open>tabindex\<close>, and the draggable 2 and the target 4 still have their handlers for keypress.
\<close>

theorem disableMatching_counterexample:
  "attrs (disableMatching (Some [2]) (Some [4])
            (DragAndDrop [0] [1, 2] [3, 4] (\<lambda>e. {}) (\<lambda>e. Map.empty))) 4 Tabindex = Some ''0''
   \<and> handlers_for (disableMatching (Some [2]) (Some [4])
            (DragAndDrop [0] [1, 2] [3, 4] (\<lambda>e. {}) (\<lambda>e. Map.empty))) 2 Keypress
     = [DraggableSelect]
   \<and> handlers_for (disableMatching (Some [2]) (Some [4])
            (DragAndDrop [0] [1, 2] [3, 4] (\<lambda>e. {}) (\<lambda>e. Map.empty))) 4 Keypress
     = [TargetSelect]"
  by (simp add: disableMatching_attrs DragAndDrop_attrs handlers_for_def
        disableMatching_bindings DragAndDrop_bindings)

subsection \<open>Cleanup, and key events after a pair is disabled\<close>

lemma cleanup_bindings:
  "bindings (cleanup s) e =
     filter (\<lambda>b. \<not> (e \<in> set (draggables s)
                     \<and> b \<in> {(Dragstart, HandleDragStart), (Dragend, HandleDragEnd)})
                \<and> \<not> (e \<in> set (targets s)
                     \<and> b \<in> {(Dragenter, HandleDragEnter), (Dragleave, HandleDragLeave),
                             (Dragover, HandleDragOver), (Drop, HandleDrop)})
                \<and> \<not> (e \<in> set (draggables s) \<union> set (targets s) \<and> fst b = Click))
       (bindings s e)"
  by (auto simp: cleanup_def Let_def removeDragEventHandlers_bindings
        removeKeyboardEventHandlers_bindings intro!: filter_cong)

lemma cleanup_fields [simp]:
  "context_elem (cleanup s) = context_elem s"
  "draggables (cleanup s) = draggables s"
  "targets (cleanup s) = targets s"
  "dragElement (cleanup s) = dragElement s"
  "classes (cleanup s) = classes s"
  "calls (cleanup s) = calls s"
  "focused (cleanup s) = focused s"
  "prevented (cleanup s) = prevented s"
  "stopped (cleanup s) = stopped s"
  by (simp_all add: cleanup_def Let_def)

lemma cleanup_attrs:
  "attrs (cleanup s) e =
     (let a = (if e \<in> set (draggables s)
               then (attrs s e)(Draggable := None, Tabindex := None) else attrs s e)
      in if e \<in> set (targets s) then a(Tabindex := None) else a)"
  by (simp add: cleanup_def Let_def)

text \<open>
  Claim C1 fails on the code: \<open>cleanup\<close> takes away the handlers for click only. The
  handlers for keypress stay on the draggables and targets and the handler for keydown
  stays on the context, so after \<open>cleanup\<close> the confirm key on draggable 1 marks it as
  selected, the confirm key on target 3 then calls the callback, and the cancel key
  removes the marker of a target that was selected before \<open>cleanup\<close>.
\<close>

theorem cleanup_keeps_key_handlers:
  "handlers_for (cleanup (DragAndDrop [0] [1, 2] [3, 4] (\<lambda>e. {}) (\<lambda>e. Map.empty))) 1 Keypress
     = [DraggableSelect]
   \<and> handlers_for (cleanup (DragAndDrop [0] [1, 2] [3, 4] (\<lambda>e. {}) (\<lambda>e. Map.empty))) 0 Keydown
     = [ContextKeydown]
   \<and> IS_SELECTED \<in> classes (run (cleanup (DragAndDrop [0] [1, 2] [3, 4] (\<lambda>e. {}) (\<lambda>e. Map.empty)))
                             [Event Keypress 1 13]) 1
   \<and> calls (run (cleanup (DragAndDrop [0] [1, 2] [3, 4] (\<lambda>e. {}) (\<lambda>e. Map.empty)))
              [Event Keypress 1 13, Event Keypress 3 13]) = [(Some [1], [3])]
   \<and> IS_SELECTED \<in> classes (cleanup (run (DragAndDrop [0] [1, 2] [3, 4] (\<lambda>e. {}) (\<lambda>e. Map.empty))
                                      [Event Click 3 1])) 3
   \<and> IS_SELECTED \<notin> classes (run (cleanup (run (DragAndDrop [0] [1, 2] [3, 4] (\<lambda>e. {}) (\<lambda>e. Map.empty))
                                           [Event Click 3 1]))
                             [Event Keydown 0 27]) 3"
  by (simp add: deliver cleanup_bindings cleanup_attrs)

text \<open>
  Claim C3 fails on the code once a pair has been disabled: \<open>disableMatching\<close> leaves the
  handler for keypress on the draggable and removes its \<open>draggable\<close> attribute, so the
  confirm key on the disabled draggable 2 takes the branch for targets. With draggable 1
  selected, both 1 and 2 are selected afterwards; with target 3 selected, the marker of
  target 3 is removed.
\<close>

theorem selection_after_disableMatching:
  "selectedDraggable
     (run (disableMatching (Some [2]) (Some [4])
             (run (DragAndDrop [0] [1, 2] [3, 4] (\<lambda>e. {}) (\<lambda>e. Map.empty)) [Event Click 1 1]))
        [Event Keypress 2 13]) = [1, 2]
   \<and> selectedTarget
       (run (DragAndDrop [0] [1, 2] [3, 4] (\<lambda>e. {}) (\<lambda>e. Map.empty)) [Event Click 3 1]) = [3]
   \<and> selectedTarget
       (run (disableMatching (Some [2]) (Some [4])
               (run (DragAndDrop [0] [1, 2] [3, 4] (\<lambda>e. {}) (\<lambda>e. Map.empty)) [Event Click 3 1]))
          [Event Keypress 2 13]) = []"
  by (simp add: deliver disableMatching_bindings disableMatching_attrs)

subsection \<open>Toggles delivered by click and confirm key\<close>

lemma selected_preventDefault [simp]:
  "selectedDraggable (preventDefault evt s) = selectedDraggable s"
  "selectedTarget (preventDefault evt s) = selectedTarget s"
  by (simp_all add: selectedDraggable_def selectedTarget_def filter_class_def)

lemma step_activation:
  assumes "set ds \<inter> set ts = {}" and "currentTarget evt \<in> set ds \<union> set ts"
    and "etype evt = Click \<or> etype evt = Keypress \<and> which evt \<in> {ENTER_KEY, SPACE_BAR}"
  shows "step (run (DragAndDrop ctx ds ts cl at) evts) evt
         = preventDefault evt
             (keyboardSelect [currentTarget evt] (run (DragAndDrop ctx ds ts cl at) evts))"
  using assms
  by (auto simp: step_DragAndDrop Let_def draggableSelect_def targetSelect_def)

text \<open>
  On an instance built over a page without selected markers, after input events only, a
  click or confirm key on a draggable or target calls the callback once if afterwards
  exactly one draggable and exactly one target are selected, with that pair, and not at
  all otherwise.
\<close>

lemma activation_dispatch:
  assumes "distinct ds" and "distinct ts" and "set ds \<inter> set ts = {}"
    and "\<forall>t\<in>set ts. \<not> truthy (at t Draggable)"
    and "\<forall>e\<in>set ds \<union> set ts. IS_SELECTED \<notin> cl e"
    and "currentTarget evt \<in> set ds \<union> set ts"
    and "etype evt = Click \<or> etype evt = Keypress \<and> which evt \<in> {ENTER_KEY, SPACE_BAR}"
  shows "calls (step (run (DragAndDrop ctx ds ts cl at) evts) evt)
         = calls (run (DragAndDrop ctx ds ts cl at) evts) @
           (if length (selectedDraggable (step (run (DragAndDrop ctx ds ts cl at) evts) evt)) = 1
               \<and> length (selectedTarget (step (run (DragAndDrop ctx ds ts cl at) evts) evt)) = 1
            then [(Some (selectedDraggable (step (run (DragAndDrop ctx ds ts cl at) evts) evt)),
                   selectedTarget (step (run (DragAndDrop ctx ds ts cl at) evts) evt))]
            else [])"
proof -
  let ?s = "run (DragAndDrop ctx ds ts cl at) evts"
  have ok: "selection_ok ?s" using assms(1-5) by (rule selection_ok_run)
  have el: "currentTarget evt \<in> set (draggables ?s) \<union> set (targets ?s)"
    using assms(6) by simp
  have st: "step ?s evt = preventDefault evt (keyboardSelect [currentTarget evt] ?s)"
    using assms(3,6,7) by (rule step_activation)
  from toggle_in_order [OF ok el] show ?thesis
    unfolding st by (simp del: selected_keyboardSelect)
qed

text \<open>
  Claim C4 fails on the code once a pair has been disabled; the cause is the one of C1
  and C3. Draggable 1 is selected by a click, the pair (2, 4) is disabled, and the confirm
  key on draggable 2 still runs the toggle: it takes the branch for targets, so 1 stays
  selected beside 2 and no call is made. The click on target 3 then finds two selected
  draggables and one selected target; the test of \<open>_keyboardSelect\<close> only asks for
  non-empty collections, and the callback is called once with both draggables, the
  element 1 that was to be replaced among them.
\<close>

theorem toggle_after_disableMatching:
  "selectedDraggable
     (run (disableMatching (Some [2]) (Some [4])
             (run (DragAndDrop [0] [1, 2] [3, 4] (\<lambda>e. {}) (\<lambda>e. Map.empty)) [Event Click 1 1]))
        [Event Keypress 2 13, Event Click 3 1]) = [1, 2]
   \<and> selectedTarget
       (run (disableMatching (Some [2]) (Some [4])
               (run (DragAndDrop [0] [1, 2] [3, 4] (\<lambda>e. {}) (\<lambda>e. Map.empty)) [Event Click 1 1]))
          [Event Keypress 2 13, Event Click 3 1]) = [3]
   \<and> calls
       (run (disableMatching (Some [2]) (Some [4])
               (run (DragAndDrop [0] [1, 2] [3, 4] (\<lambda>e. {}) (\<lambda>e. Map.empty)) [Event Click 1 1]))
          [Event Keypress 2 13]) = []
   \<and> calls
       (run (disableMatching (Some [2]) (Some [4])
               (run (DragAndDrop [0] [1, 2] [3, 4] (\<lambda>e. {}) (\<lambda>e. Map.empty)) [Event Click 1 1]))
          [Event Keypress 2 13, Event Click 3 1]) = [(Some [1, 2], [3])]"
  by (simp add: deliver disableMatching_bindings disableMatching_attrs)

end
